theory Spec2Isabelle
  imports Complex_Main
begin

section \<open>Data model of \<^verbatim>\<open>digital_ocean/auto-deploy.py\<close>\<close>

text \<open>
  Exceptions are values. Every constructor stands for a Python class deriving from
  \<^verbatim>\<open>Exception\<close>; \<open>RetryError e\<close> is the wrapper that the retry decorator
  raises around the exception \<open>e\<close> of the last attempt, \<open>RequestException\<close> stands for
  \<^verbatim>\<open>requests.RequestException\<close> and its subclasses.
\<close>

datatype exception =
    ConfigurationError
  | DropletCreationError
  | NodeHealthCheckError
  | RequestException
  | ValueError
  | KeyError
  | IndexError
  | TypeError
  | FileNotFoundError
  | JSONDecodeError
  | RetryError exception
  | OtherException

fun is_RequestException :: "exception \<Rightarrow> bool" where
  "is_RequestException RequestException = True"
| "is_RequestException _ = False"

fun is_NodeHealthCheckError :: "exception \<Rightarrow> bool" where
  "is_NodeHealthCheckError NodeHealthCheckError = True"
| "is_NodeHealthCheckError _ = False"

text \<open>
  A \<^verbatim>\<open>datetime\<close>: the calendar fields, and the offset from UTC of its
  \<^verbatim>\<open>tzinfo\<close> in microseconds (\<open>None\<close> for a naive value).
\<close>

record datetime =
  dt_year :: nat
  dt_month :: nat
  dt_day :: nat
  dt_hour :: nat
  dt_minute :: nat
  dt_second :: nat
  dt_microsecond :: nat
  dt_utcoffset :: "int option"

text \<open>The dataclass \<^verbatim>\<open>ExitNodeInfo\<close>: one tracked instance.\<close>

record ExitNodeInfo =
  droplet_id :: string
  name :: string
  public_ip :: string
  tailscale_ip :: string
  region :: string
  status :: string
  created_at :: datetime
  last_checked :: datetime

text \<open>The dataclass \<^verbatim>\<open>Config\<close>; Python's \<^verbatim>\<open>int\<close> is unbounded.\<close>

record Config =
  do_token :: string
  ts_authkey :: string
  login_server :: string
  config_region :: string
  image_name :: string
  name_prefix :: string
  target_nodes :: int
  max_nodes :: int
  health_check_interval :: int
  log_level :: string

text \<open>
  JSON documents, as \<^verbatim>\<open>json.load\<close> returns them and \<^verbatim>\<open>json.dump\<close> takes
  them (numbers restricted to integers). An object keeps its members in order.
\<close>

datatype json =
    JNull
  | JBool bool
  | JNumber int
  | JString string
  | JArray "json list"
  | JObject "(string \<times> json) list"

text \<open>
  What the provider library returns for a droplet: \<open>d_id\<close> is \<^verbatim>\<open>str(d.id)\<close>, the
  form in which the program compares ids; \<open>ip_address\<close> is \<open>None\<close> until an address is
  assigned.
\<close>

record Droplet =
  d_id :: string
  d_name :: string
  ip_address :: "string option"
  d_status :: string

text \<open>A \<^verbatim>\<open>requests.Response\<close>: \<open>json_body\<close> is what \<^verbatim>\<open>.json()\<close> does.\<close>

record response =
  status_code :: int
  text_body :: string
  json_body :: "exception + json"

text \<open>
  Calls that leave the process are recorded in a trace, in the order in which the code
  makes them.
\<close>

datatype event =
    GetAllDroplets
  | GetDroplet string
  | CreateDroplet
  | Destroy string
  | HttpGet string
  | Sleep nat
  | SubmitProvision nat
  | WriteStateFile

fun is_provider_call :: "event \<Rightarrow> bool" where
  "is_provider_call GetAllDroplets = True"
| "is_provider_call (GetDroplet _) = True"
| "is_provider_call CreateDroplet = True"
| "is_provider_call (Destroy _) = True"
| "is_provider_call _ = False"

fun is_destroy :: "event \<Rightarrow> bool" where
  "is_destroy (Destroy _) = True"
| "is_destroy _ = False"

fun is_submit :: "event \<Rightarrow> bool" where
  "is_submit (SubmitProvision _) = True"
| "is_submit _ = False"

text \<open>
  The state file \<^verbatim>\<open>exit_nodes.json\<close>: absent, holding text that
  \<^verbatim>\<open>json.load\<close> rejects with \<^verbatim>\<open>JSONDecodeError\<close>, or holding the text of a JSON
  document (identified with the document, as \<^verbatim>\<open>json.dump\<close> writes it and
  \<^verbatim>\<open>json.load\<close> reads it back).
\<close>

datatype file_content = FileMissing | FileNotJson | FileJson json

text \<open>The caching client \<^verbatim>\<open>DigitalOceanClient\<close>; \<^verbatim>\<open>time.time()\<close> is a real.\<close>

record DigitalOceanClient =
  droplets_cache :: "Droplet list option"
  cache_time :: "real option"

definition cache_ttl_seconds :: real where
  "cache_ttl_seconds = 60"

text \<open>The fields of \<^verbatim>\<open>TailscaleExitNodeManager\<close> that a cycle reads or writes.\<close>

record manager =
  config :: Config
  do_client :: DigitalOceanClient
  region_slug :: string
  exit_nodes :: "ExitNodeInfo list"
  exit_nodes_file :: file_content

text \<open>
  What the outside world answers to one single-node provisioning attempt:
  \<open>provider_create k\<close> is the outcome of the \<open>k\<close>-th run of the creation request
  (payload, image lookup, create, wait for the action, re-fetch), \<open>ready_probe k\<close> the
  answer to the \<open>k\<close>-th readiness poll, \<open>status_http\<close> the answers to the status
  query that follows, \<open>destroy_created\<close> the outcome of destroying the created droplet,
  and the two clock readings of the constructor call.
\<close>

record attempt_world =
  provider_create :: "nat \<Rightarrow> exception + Droplet"
  ready_probe :: "nat \<Rightarrow> string \<Rightarrow> exception + response"
  status_http :: "string \<Rightarrow> exception + response"
  destroy_created :: "exception option"
  now_created :: datetime
  now_checked :: datetime

text \<open>
  What the outside world answers during one cycle: the clock of
  \<^verbatim>\<open>time.time()\<close>, the provider's listing, the HTTP answers and the validity of
  addresses (\<^verbatim>\<open>ipaddress.ip_address\<close>) during the health check, the clock reading
  \<^verbatim>\<open>datetime.now(timezone.utc)\<close> while the \<open>i\<close>-th tracked node is evaluated, an
  exception raised while the droplet found for the \<open>i\<close>-th node is examined, before any
  assignment to the node (if any),
  the provider's answers during cleanup, the world of each provisioning worker, and
  whether opening the state file for writing fails.
\<close>

record world =
  time_now :: real
  get_all_droplets :: "exception + Droplet list"
  http_get :: "string \<Rightarrow> exception + response"
  ip_valid :: "string \<Rightarrow> bool"
  utc_now :: "nat \<Rightarrow> datetime"
  check_fault :: "nat \<Rightarrow> exception option"
  provider_get_droplet :: "string \<Rightarrow> exception + Droplet"
  provider_destroy :: "Droplet \<Rightarrow> exception option"
  worker :: "nat \<Rightarrow> attempt_world"
  write_fails :: "exception option"

section \<open>The provider listing with its cache\<close>

text \<open>
  \<^verbatim>\<open>DigitalOceanClient.get_droplets\<close>. On a failed fetch the source returns
  \<^verbatim>\<open>self._droplets_cache or []\<close>, and otherwise the cache, or \<^verbatim>\<open>[]\<close> when the
  cache is \<^verbatim>\<open>None\<close>.
\<close>

definition cache_or_empty :: "Droplet list option \<Rightarrow> Droplet list" where
  "cache_or_empty c = (case c of None \<Rightarrow> [] | Some ds \<Rightarrow> (if ds = [] then [] else ds))"

definition cache_expired :: "real \<Rightarrow> DigitalOceanClient \<Rightarrow> bool" where
  "cache_expired now c =
     (case droplets_cache c of
        None \<Rightarrow> True
      | Some _ \<Rightarrow> (case cache_time c of
                    None \<Rightarrow> True
                  | Some t \<Rightarrow> now - t > cache_ttl_seconds))"

definition get_droplets ::
  "world \<Rightarrow> DigitalOceanClient \<Rightarrow> bool \<Rightarrow> event list \<times> DigitalOceanClient \<times> Droplet list" where
  "get_droplets w c force_refresh =
     (let now = time_now w in
      if force_refresh \<or> cache_expired now c then
        (case get_all_droplets w of
           Inr ds \<Rightarrow> ([GetAllDroplets], c\<lparr>droplets_cache := Some ds, cache_time := Some now\<rparr>, ds)
         | Inl e \<Rightarrow> ([GetAllDroplets], c, cache_or_empty (droplets_cache c)))
      else ([], c, (case droplets_cache c of None \<Rightarrow> [] | Some ds \<Rightarrow> ds)))"

section \<open>The readiness prober\<close>

text \<open>
  The dictionary that \<^verbatim>\<open>_get_status_via_http\<close> returns has one of two shapes:
  \<^verbatim>\<open>{'is_ready': False}\<close>, or \<^verbatim>\<open>is_ready\<close> true with the overlay address and the
  status document.
\<close>

datatype status_info = NotReady | Ready string json


text \<open>\<^verbatim>\<open>str.strip()\<close>, on the ASCII characters for which \<^verbatim>\<open>str.isspace\<close> holds.\<close>

definition py_isspace :: "char \<Rightarrow> bool" where
  "py_isspace c = (of_char c \<in> {9, 10, 11, 12, 13, 28, 29, 30, 31, 32 :: nat})"

definition strip :: "string \<Rightarrow> string" where
  "strip s = rev (dropWhile py_isspace (rev (dropWhile py_isspace s)))"

definition setup_complete_url :: "string \<Rightarrow> string" where
  "setup_complete_url ip = ''http://'' @ ip @ '':8080/setup-complete''"

definition tailscale_ip_url :: "string \<Rightarrow> string" where
  "tailscale_ip_url ip = ''http://'' @ ip @ '':8080/tailscale-ip.txt''"

definition tailscale_status_url :: "string \<Rightarrow> string" where
  "tailscale_status_url ip = ''http://'' @ ip @ '':8080/tailscale-status.json''"

text \<open>
  The handler \<^verbatim>\<open>except requests.RequestException\<close> around the whole body of
  \<^verbatim>\<open>_get_status_via_http\<close>: a request exception becomes the not-ready answer, any
  other exception leaves the function.
\<close>

definition on_request_exception :: "exception \<Rightarrow> exception + status_info" where
  "on_request_exception e = (if is_RequestException e then Inr NotReady else Inl e)"

definition get_status_via_http ::
  "(string \<Rightarrow> exception + response) \<Rightarrow> string \<Rightarrow> event list \<times> (exception + status_info)" where
  "get_status_via_http http ip =
     (let u1 = setup_complete_url ip; u2 = tailscale_ip_url ip; u3 = tailscale_status_url ip in
      case http u1 of
        Inl e \<Rightarrow> ([HttpGet u1], on_request_exception e)
      | Inr setup_response \<Rightarrow>
          if status_code setup_response \<noteq> 200 then ([HttpGet u1], Inr NotReady)
          else
            (case http u2 of
               Inl e \<Rightarrow> ([HttpGet u1, HttpGet u2], on_request_exception e)
             | Inr ts_ip_response \<Rightarrow>
                 (let ts_ip = (if status_code ts_ip_response = 200
                               then strip (text_body ts_ip_response) else '''') in
                  case http u3 of
                    Inl e \<Rightarrow> ([HttpGet u1, HttpGet u2, HttpGet u3], on_request_exception e)
                  | Inr ts_status_response \<Rightarrow>
                      (case (if status_code ts_status_response = 200
                             then json_body ts_status_response else Inr (JObject [])) of
                         Inl e \<Rightarrow> ([HttpGet u1, HttpGet u2, HttpGet u3], on_request_exception e)
                       | Inr ts_status_data \<Rightarrow>
                           ([HttpGet u1, HttpGet u2, HttpGet u3],
                            Inr (Ready ts_ip ts_status_data))))))"

text \<open>
  The dictionary of \<^verbatim>\<open>_get_node_status\<close>; \<open>ns_tailscale_ip\<close> is
  \<^verbatim>\<open>status_info.get('tailscale_ip')\<close>, \<open>None\<close> when the key is missing.
\<close>

record node_status =
  ns_public_ip :: string
  ns_tailscale_ip :: "string option"
  ns_is_reachable :: bool
  ns_tailscale_status :: json

definition node_status_of :: "string \<Rightarrow> status_info \<Rightarrow> node_status" where
  "node_status_of ip si =
     (case si of
        NotReady \<Rightarrow> \<lparr>ns_public_ip = ip, ns_tailscale_ip = None, ns_is_reachable = False,
                     ns_tailscale_status = JObject []\<rparr>
      | Ready ts_ip st \<Rightarrow> \<lparr>ns_public_ip = ip, ns_tailscale_ip = Some ts_ip,
                          ns_is_reachable = True, ns_tailscale_status = st\<rparr>)"

text \<open>
  \<^verbatim>\<open>_get_node_status\<close>: no address, an invalid address (\<^verbatim>\<open>ValueError\<close>) and any
  exception of the HTTP query all give \<^verbatim>\<open>None\<close>.
\<close>

definition get_node_status ::
  "(string \<Rightarrow> bool) \<Rightarrow> (string \<Rightarrow> exception + response) \<Rightarrow> Droplet
     \<Rightarrow> event list \<times> node_status option" where
  "get_node_status valid http droplet =
     (case ip_address droplet of
        None \<Rightarrow> ([], None)
      | Some ip \<Rightarrow>
          if ip = [] then ([], None)
          else if \<not> valid ip then ([], None)
          else (case get_status_via_http http ip of
                  (evs, Inl e) \<Rightarrow> (evs, None)
                | (evs, Inr si) \<Rightarrow> (evs, Some (node_status_of ip si))))"

section \<open>Retrying, readiness wait and single-node provisioning\<close>

text \<open>
  The decorator \<^verbatim>\<open>tenacity.retry(retry=..., wait=..., stop=stop_after_attempt(n))\<close>
  of the retry library, with \<^verbatim>\<open>reraise\<close> left at its default: the body runs; a
  returned value is returned; an exception that the \<open>retry\<close> predicate rejects is raised
  as it is; otherwise, when the attempt number has reached \<open>n\<close>, the library raises its
  own \<^verbatim>\<open>RetryError\<close> holding the last exception, and else it sleeps \<open>wait k\<close>
  seconds and runs the body again. \<open>body k\<close> is the \<open>k\<close>-th run, counted from 1, and
  \<open>r\<close> the number of runs still allowed after it.
\<close>

fun retry_from ::
  "(exception \<Rightarrow> bool) \<Rightarrow> (nat \<Rightarrow> nat) \<Rightarrow> (nat \<Rightarrow> event list \<times> (exception + 'a))
     \<Rightarrow> nat \<Rightarrow> nat \<Rightarrow> event list \<times> (exception + 'a)" where
  "retry_from retry wait body k 0 =
     (case body k of
        (evs, Inr v) \<Rightarrow> (evs, Inr v)
      | (evs, Inl e) \<Rightarrow> if retry e then (evs, Inl (RetryError e)) else (evs, Inl e))"
| "retry_from retry wait body k (Suc r) =
     (case body k of
        (evs, Inr v) \<Rightarrow> (evs, Inr v)
      | (evs, Inl e) \<Rightarrow>
          if retry e then
            (case retry_from retry wait body (Suc k) r of
               (evs', res) \<Rightarrow> (evs @ [Sleep (wait k)] @ evs', res))
          else (evs, Inl e))"

definition tenacity_retry ::
  "(exception \<Rightarrow> bool) \<Rightarrow> (nat \<Rightarrow> nat) \<Rightarrow> nat \<Rightarrow> (nat \<Rightarrow> event list \<times> (exception + 'a))
     \<Rightarrow> event list \<times> (exception + 'a)" where
  "tenacity_retry retry wait stop_after_attempt body = retry_from retry wait body 1 (stop_after_attempt - 1)"

text \<open>\<^verbatim>\<open>wait_fixed(30)\<close> and \<^verbatim>\<open>wait_exponential(multiplier=1, min=5, max=60)\<close>.\<close>

definition wait_fixed :: "nat \<Rightarrow> nat \<Rightarrow> nat" where
  "wait_fixed n k = n"

definition wait_exponential :: "nat \<Rightarrow> nat \<Rightarrow> nat \<Rightarrow> nat \<Rightarrow> nat" where
  "wait_exponential multiplier lo hi k = max lo (min (multiplier * 2 ^ (k - 1)) hi)"

text \<open>
  The body of \<^verbatim>\<open>_wait_for_http_ready\<close>: status 200 returns \<^verbatim>\<open>True\<close>; any other
  status and any request exception end in \<^verbatim>\<open>raise NodeHealthCheckError\<close>; an
  exception of another class leaves the body as it is.
\<close>

definition wait_for_http_ready_body ::
  "(nat \<Rightarrow> string \<Rightarrow> exception + response) \<Rightarrow> string \<Rightarrow> nat \<Rightarrow> event list \<times> (exception + bool)" where
  "wait_for_http_ready_body probe ip k =
     (let u = setup_complete_url ip in
      case probe k u of
        Inr resp \<Rightarrow> if status_code resp = 200 then ([HttpGet u], Inr True)
                     else ([HttpGet u], Inl NodeHealthCheckError)
      | Inl e \<Rightarrow> if is_RequestException e then ([HttpGet u], Inl NodeHealthCheckError)
                  else ([HttpGet u], Inl e))"

definition wait_for_http_ready ::
  "(nat \<Rightarrow> string \<Rightarrow> exception + response) \<Rightarrow> string \<Rightarrow> event list \<times> (exception + bool)" where
  "wait_for_http_ready probe ip =
     tenacity_retry is_NodeHealthCheckError (wait_fixed 30) 10 (wait_for_http_ready_body probe ip)"

text \<open>
  The body of \<^verbatim>\<open>_create_droplet\<close>: the request to the provider, then the check that
  an address was assigned. The decorator retries it on every exception, three times.
\<close>

definition no_address :: "Droplet \<Rightarrow> bool" where
  "no_address d = (case ip_address d of None \<Rightarrow> True | Some ip \<Rightarrow> ip = [])"

definition create_droplet_body ::
  "attempt_world \<Rightarrow> nat \<Rightarrow> event list \<times> (exception + Droplet)" where
  "create_droplet_body a k =
     (case provider_create a k of
        Inl e \<Rightarrow> ([CreateDroplet], Inl e)
      | Inr created_droplet \<Rightarrow>
          if no_address created_droplet then ([CreateDroplet], Inl DropletCreationError)
          else ([CreateDroplet], Inr created_droplet))"

definition create_droplet :: "attempt_world \<Rightarrow> event list \<times> (exception + Droplet)" where
  "create_droplet a =
     tenacity_retry (\<lambda>e. True) (wait_exponential 1 5 60) 3 (create_droplet_body a)"

text \<open>How an f-string renders an address that may be \<^verbatim>\<open>None\<close>.\<close>

definition fmt_ip :: "string option \<Rightarrow> string" where
  "fmt_ip a = (case a of None \<Rightarrow> ''None'' | Some ip \<Rightarrow> ip)"

text \<open>
  The handler of \<^verbatim>\<open>_provision_single_node\<close> once a droplet exists: destroy it,
  swallow a failure of the destroy, return \<^verbatim>\<open>None\<close>.
\<close>

definition destroy_failed_droplet :: "attempt_world \<Rightarrow> Droplet \<Rightarrow> event list \<times> ExitNodeInfo option" where
  "destroy_failed_droplet a droplet =
     (case destroy_created a of
        None \<Rightarrow> ([Destroy (d_id droplet)], None)
      | Some cleanup_error \<Rightarrow> ([Destroy (d_id droplet)], None))"

text \<open>
  \<^verbatim>\<open>_provision_single_node\<close>. When creation fails the variable \<^verbatim>\<open>droplet\<close> is still
  \<^verbatim>\<open>None\<close> and nothing is destroyed. \<open>ns_tailscale_ip\<close> is present whenever the
  node is reachable (lemma \<open>reachable_has_tailscale_ip\<close>); the constructor receives it.
\<close>

definition provision_single_node ::
  "(string \<Rightarrow> bool) \<Rightarrow> string \<Rightarrow> attempt_world \<Rightarrow> event list \<times> ExitNodeInfo option" where
  "provision_single_node valid slug a =
     (case create_droplet a of
        (ev1, Inl e) \<Rightarrow> (ev1, None)
      | (ev1, Inr droplet) \<Rightarrow>
          (case wait_for_http_ready (ready_probe a) (fmt_ip (ip_address droplet)) of
             (ev2, Inl e) \<Rightarrow>
               (case destroy_failed_droplet a droplet of (ev3, r) \<Rightarrow> (ev1 @ ev2 @ ev3, r))
           | (ev2, Inr _) \<Rightarrow>
               (case get_node_status valid (status_http a) droplet of
                  (ev3, None) \<Rightarrow>
                    (case destroy_failed_droplet a droplet of (ev4, r) \<Rightarrow> (ev1 @ ev2 @ ev3 @ ev4, r))
                | (ev3, Some node_status_data) \<Rightarrow>
                    if \<not> ns_is_reachable node_status_data then
                      (case destroy_failed_droplet a droplet of (ev4, r) \<Rightarrow> (ev1 @ ev2 @ ev3 @ ev4, r))
                    else
                      (ev1 @ ev2 @ ev3,
                       Some \<lparr>droplet_id = d_id droplet,
                             name = d_name droplet,
                             public_ip = fmt_ip (ip_address droplet),
                             tailscale_ip = (case ns_tailscale_ip node_status_data of
                                               Some t \<Rightarrow> t | None \<Rightarrow> ''None''),
                             region = slug,
                             status = ''healthy'',
                             created_at = now_created a,
                             last_checked = now_checked a\<rparr>))))"

text \<open>
  \<^verbatim>\<open>_provision_nodes(count)\<close>: the pool refuses \<^verbatim>\<open>max_workers = min(count, 3)\<close>
  below 1 with \<^verbatim>\<open>ValueError\<close>; otherwise \<open>count\<close> attempts are submitted, and the
  nodes of the successful ones are appended to the tracked list. The attempts run
  concurrently; the model lists their calls and their results worker by worker.
\<close>

definition run_workers ::
  "world \<Rightarrow> string \<Rightarrow> nat \<Rightarrow> (event list \<times> ExitNodeInfo option) list" where
  "run_workers w slug count = map (\<lambda>i. provision_single_node (ip_valid w) slug (worker w i)) [0..<count]"

definition provision_nodes ::
  "world \<Rightarrow> manager \<Rightarrow> int \<Rightarrow> event list \<times> (exception + manager)" where
  "provision_nodes w m count =
     (if min count 3 < 1 then ([], Inl ValueError)
      else
        (let results = run_workers w (region_slug m) (nat count);
             successful_nodes = List.map_filter snd results
         in (map SubmitProvision [0..<nat count] @ concat (map fst results),
             Inr (m\<lparr>exit_nodes := exit_nodes m @ successful_nodes\<rparr>))))"

section \<open>Health check of the tracked nodes, cleanup, and the cycle\<close>

text \<open>
  \<^verbatim>\<open>list.remove(x)\<close> deletes the first element equal to \<open>x\<close> (a dataclass compares
  field by field) and raises \<^verbatim>\<open>ValueError\<close> when there is none.
\<close>

definition list_remove :: "'a \<Rightarrow> 'a list \<Rightarrow> exception + 'a list" where
  "list_remove x xs = (if x \<in> set xs then Inr (remove1 x xs) else Inl ValueError)"

fun remove_each :: "'a list \<Rightarrow> 'a list \<Rightarrow> exception + 'a list" where
  "remove_each [] xs = Inr xs"
| "remove_each (r # rs) xs =
     (case list_remove r xs of Inl e \<Rightarrow> Inl e | Inr xs' \<Rightarrow> remove_each rs xs')"

text \<open>
  The dictionary \<^verbatim>\<open>{str(d.id): d for d in ...}\<close>: a later droplet with the same id
  replaces an earlier one.
\<close>

definition droplets_by_id :: "Droplet list \<Rightarrow> (string \<rightharpoonup> Droplet)" where
  "droplets_by_id ds = map_of (rev (map (\<lambda>d. (d_id d, d)) ds))"

text \<open>
  The body of the loop of \<^verbatim>\<open>_check_existing_nodes\<close> for the node at position \<open>i\<close>:
  either the node is marked for removal, or it stays, with the fields assigned by the
  branch taken, and is appended to \<^verbatim>\<open>healthy_nodes\<close> or not.
\<close>

datatype check_result = Vanished | Checked ExitNodeInfo bool

definition check_node ::
  "world \<Rightarrow> (string \<rightharpoonup> Droplet) \<Rightarrow> nat \<Rightarrow> ExitNodeInfo \<Rightarrow> event list \<times> check_result" where
  "check_node w current_do_droplets i node_info =
     (case current_do_droplets (droplet_id node_info) of
        None \<Rightarrow> ([], Vanished)
      | Some droplet \<Rightarrow>
          (case check_fault w i of
             Some e \<Rightarrow> ([], Checked (node_info\<lparr>status := ''error''\<rparr>) False)
           | None \<Rightarrow>
               if d_status droplet = ''active'' then
                 (case get_node_status (ip_valid w) (http_get w) droplet of
                    (evs, Some node_status_data) \<Rightarrow>
                      if ns_is_reachable node_status_data then
                        (evs, Checked (node_info\<lparr>status := ''healthy'',
                                 tailscale_ip := (case ns_tailscale_ip node_status_data of
                                                    Some t \<Rightarrow> t | None \<Rightarrow> ''None''),
                                 last_checked := utc_now w i\<rparr>) True)
                      else
                        (evs, Checked (node_info\<lparr>status := ''unhealthy'',
                                 last_checked := utc_now w i\<rparr>) False)
                  | (evs, None) \<Rightarrow>
                      (evs, Checked (node_info\<lparr>status := ''unhealthy'',
                               last_checked := utc_now w i\<rparr>) False))
               else ([], Checked (node_info\<lparr>status := ''unhealthy''\<rparr>) False)))"

text \<open>
  The loop: the trace, the tracked list as the assignments leave it, the list
  \<^verbatim>\<open>nodes_to_remove_from_tracking\<close> and the list \<^verbatim>\<open>healthy_nodes\<close>.
\<close>

fun check_loop ::
  "world \<Rightarrow> (string \<rightharpoonup> Droplet) \<Rightarrow> nat \<Rightarrow> ExitNodeInfo list
     \<Rightarrow> event list \<times> ExitNodeInfo list \<times> ExitNodeInfo list \<times> ExitNodeInfo list" where
  "check_loop w inventory i [] = ([], [], [], [])"
| "check_loop w inventory i (node_info # rest) =
     (case check_node w inventory i node_info of
        (ev1, r) \<Rightarrow>
          (case check_loop w inventory (Suc i) rest of
             (ev2, nodes, to_remove, healthy) \<Rightarrow>
               (case r of
                  Vanished \<Rightarrow> (ev1 @ ev2, node_info # nodes, node_info # to_remove, healthy)
                | Checked node_info' h \<Rightarrow>
                    (ev1 @ ev2, node_info' # nodes, to_remove,
                     (if h then node_info' # healthy else healthy)))))"

definition check_existing_nodes ::
  "world \<Rightarrow> manager \<Rightarrow> event list \<times> (exception + manager \<times> ExitNodeInfo list)" where
  "check_existing_nodes w m =
     (case get_droplets w (do_client m) False of
        (ev0, client', listing) \<Rightarrow>
          (case check_loop w (droplets_by_id listing) 0 (exit_nodes m) of
             (ev1, nodes, nodes_to_remove_from_tracking, healthy_nodes) \<Rightarrow>
               (case remove_each nodes_to_remove_from_tracking nodes of
                  Inl e \<Rightarrow> (ev0 @ ev1, Inl e)
                | Inr nodes' \<Rightarrow>
                    (ev0 @ ev1,
                     Inr (m\<lparr>do_client := client', exit_nodes := nodes'\<rparr>, healthy_nodes)))))"

text \<open>
  \<^verbatim>\<open>_cleanup_failed_nodes\<close>. For a node whose status is \<^verbatim>\<open>unhealthy\<close> or
  \<^verbatim>\<open>error\<close> the droplet is fetched and destroyed inside \<^verbatim>\<open>try\<close>; whatever the
  outcome, the node joins \<^verbatim>\<open>nodes_to_permanently_remove\<close>.
\<close>

definition is_failed :: "ExitNodeInfo \<Rightarrow> bool" where
  "is_failed node_info = (status node_info \<in> set [''unhealthy'', ''error''])"

definition destroy_node :: "world \<Rightarrow> ExitNodeInfo \<Rightarrow> event list" where
  "destroy_node w node_info =
     (case provider_get_droplet w (droplet_id node_info) of
        Inl destroy_error \<Rightarrow> [GetDroplet (droplet_id node_info)]
      | Inr droplet \<Rightarrow>
          (case provider_destroy w droplet of
             None \<Rightarrow> [GetDroplet (droplet_id node_info), Destroy (d_id droplet)]
           | Some destroy_error \<Rightarrow> [GetDroplet (droplet_id node_info), Destroy (d_id droplet)]))"

fun cleanup_loop :: "world \<Rightarrow> ExitNodeInfo list \<Rightarrow> event list \<times> ExitNodeInfo list" where
  "cleanup_loop w [] = ([], [])"
| "cleanup_loop w (node_info # rest) =
     (case cleanup_loop w rest of
        (evs, to_remove) \<Rightarrow>
          if is_failed node_info then (destroy_node w node_info @ evs, node_info # to_remove)
          else (evs, to_remove))"

definition cleanup_failed_nodes :: "world \<Rightarrow> manager \<Rightarrow> event list \<times> (exception + manager)" where
  "cleanup_failed_nodes w m =
     (case cleanup_loop w (exit_nodes m) of
        (evs, nodes_to_permanently_remove) \<Rightarrow>
          (case remove_each nodes_to_permanently_remove (exit_nodes m) of
             Inl e \<Rightarrow> (evs, Inl e)
           | Inr nodes' \<Rightarrow> (evs, Inr (m\<lparr>exit_nodes := nodes'\<rparr>))))"

text \<open>The provisioning decision of \<^verbatim>\<open>run\<close>, on the tracked list left by cleanup.\<close>

definition current_healthy_count :: "manager \<Rightarrow> int" where
  "current_healthy_count m = int (length (filter (\<lambda>n. status n = ''healthy'') (exit_nodes m)))"

definition needed :: "manager \<Rightarrow> int" where
  "needed m = max 0 (target_nodes (config m) - current_healthy_count m)"

definition max_can_create :: "manager \<Rightarrow> int" where
  "max_can_create m = max 0 (max_nodes (config m) - int (length (exit_nodes m)))"

definition provision_shortfall :: "world \<Rightarrow> manager \<Rightarrow> event list \<times> (exception + manager)" where
  "provision_shortfall w m =
     (if needed m > 0 then
        (if int (length (exit_nodes m)) + needed m \<le> max_nodes (config m)
         then provision_nodes w m (needed m)
         else if max_can_create m > 0 then provision_nodes w m (max_can_create m)
         else ([], Inr m))
      else ([], Inr m))"

section \<open>Timestamps as ISO-8601 text\<close>

text \<open>
  \<^verbatim>\<open>"%0wd" % n\<close> for a field \<open>n\<close> below \<open>10 ^ w\<close>, which every field of a
  \<^verbatim>\<open>datetime\<close> is at the width it is printed with.
\<close>

definition digit_char :: "nat \<Rightarrow> char" where
  "digit_char d = char_of (48 + d)"

fun zero_pad :: "nat \<Rightarrow> nat \<Rightarrow> string" where
  "zero_pad 0 n = []"
| "zero_pad (Suc w) n = zero_pad w (n div 10) @ [digit_char (n mod 10)]"

text \<open>\<^verbatim>\<open>_format_offset\<close> of the standard library, on the offset in microseconds.\<close>

definition format_offset :: "int option \<Rightarrow> string" where
  "format_offset off =
     (case off of
        None \<Rightarrow> []
      | Some x \<Rightarrow>
          (let sign = (if x < 0 then CHR ''-'' else CHR ''+'');
               a = nat \<bar>x\<bar>;
               hh = a div 3600000000;
               mm = (a mod 3600000000) div 60000000;
               ss = (a mod 60000000) div 1000000;
               us = a mod 1000000
           in [sign] @ zero_pad 2 hh @ '':'' @ zero_pad 2 mm
              @ (if ss \<noteq> 0 \<or> us \<noteq> 0
                 then '':'' @ zero_pad 2 ss @ (if us \<noteq> 0 then ''.'' @ zero_pad 6 us else [])
                 else [])))"

text \<open>\<^verbatim>\<open>_format_time\<close> with \<^verbatim>\<open>timespec='auto'\<close>, and \<^verbatim>\<open>datetime.isoformat()\<close>.\<close>

definition format_time :: "datetime \<Rightarrow> string" where
  "format_time d =
     zero_pad 2 (dt_hour d) @ '':'' @ zero_pad 2 (dt_minute d) @ '':'' @ zero_pad 2 (dt_second d)
     @ (if dt_microsecond d \<noteq> 0 then ''.'' @ zero_pad 6 (dt_microsecond d) else [])"

definition isoformat :: "datetime \<Rightarrow> string" where
  "isoformat d =
     zero_pad 4 (dt_year d) @ ''-'' @ zero_pad 2 (dt_month d) @ ''-'' @ zero_pad 2 (dt_day d)
     @ ''T'' @ format_time d @ format_offset (dt_utcoffset d)"

text \<open>
  \<^verbatim>\<open>int(s)\<close> on a slice of the timestamp; the model accepts a non-empty run of
  decimal digits and answers \<^verbatim>\<open>ValueError\<close> to everything else.
\<close>

definition is_digit :: "char \<Rightarrow> bool" where
  "is_digit c = (48 \<le> (of_char c :: nat) \<and> (of_char c :: nat) \<le> 57)"

definition digit_val :: "char \<Rightarrow> nat" where
  "digit_val c = of_char c - 48"

definition py_int :: "string \<Rightarrow> exception + nat" where
  "py_int s =
     (if s \<noteq> [] \<and> list_all is_digit s
      then Inr (foldl (\<lambda>acc c. 10 * acc + digit_val c) 0 s)
      else Inl ValueError)"

text \<open>
  \<^verbatim>\<open>_parse_hh_mm_ss_ff\<close>: up to three two-digit components separated by colons,
  then an optional fraction of three or six digits. A component that is absent is 0.
\<close>

definition parse_fraction :: "string \<Rightarrow> exception + nat" where
  "parse_fraction rest =
     (if rest = [] then Inr 0
      else if hd rest \<noteq> CHR ''.'' then Inl ValueError
      else (let frac = tl rest in
            if length frac \<noteq> 3 \<and> length frac \<noteq> 6 then Inl ValueError
            else (case py_int frac of
                    Inl e \<Rightarrow> Inl e
                  | Inr v \<Rightarrow> Inr (if length frac = 3 then v * 1000 else v))))"

definition parse_hh_mm_ss_ff :: "string \<Rightarrow> exception + nat \<times> nat \<times> nat \<times> nat" where
  "parse_hh_mm_ss_ff tstr =
     (if length tstr < 2 then Inl ValueError
      else case py_int (take 2 tstr) of
        Inl e \<Rightarrow> Inl e
      | Inr hh \<Rightarrow>
          (let r0 = drop 2 tstr in
           if r0 = [] then Inr (hh, 0, 0, 0)
           else if hd r0 \<noteq> CHR '':'' then Inl ValueError
           else (let t1 = tl r0 in
             if length t1 < 2 then Inl ValueError
             else case py_int (take 2 t1) of
               Inl e \<Rightarrow> Inl e
             | Inr mm \<Rightarrow>
                 (let r1 = drop 2 t1 in
                  if r1 = [] then Inr (hh, mm, 0, 0)
                  else if hd r1 \<noteq> CHR '':'' then Inl ValueError
                  else (let t2 = tl r1 in
                    if length t2 < 2 then Inl ValueError
                    else case py_int (take 2 t2) of
                      Inl e \<Rightarrow> Inl e
                    | Inr ss \<Rightarrow>
                        (case parse_fraction (drop 2 t2) of
                           Inl e \<Rightarrow> Inl e
                         | Inr ff \<Rightarrow> Inr (hh, mm, ss, ff)))))))"

text \<open>
  \<^verbatim>\<open>tstr.find('-') + 1 or tstr.find('+') + 1\<close>: the position after the first minus
  sign, else after the first plus sign, else 0.
\<close>

fun find_char :: "char \<Rightarrow> string \<Rightarrow> nat option" where
  "find_char c [] = None"
| "find_char c (x # xs) =
     (if x = c then Some 0 else (case find_char c xs of None \<Rightarrow> None | Some i \<Rightarrow> Some (Suc i)))"

definition tz_pos :: "string \<Rightarrow> nat" where
  "tz_pos tstr =
     (case find_char (CHR ''-'') tstr of
        Some i \<Rightarrow> i + 1
      | None \<Rightarrow> (case find_char (CHR ''+'') tstr of Some i \<Rightarrow> i + 1 | None \<Rightarrow> 0))"

text \<open>
  \<^verbatim>\<open>_parse_isoformat_time\<close>. An offset whose components are all zero is
  \<^verbatim>\<open>timezone.utc\<close>; \<^verbatim>\<open>timezone(td)\<close> refuses an offset of a day or more.
\<close>

definition microseconds_per_day :: int where
  "microseconds_per_day = 86400000000"

definition parse_isoformat_time ::
  "string \<Rightarrow> exception + (nat \<times> nat \<times> nat \<times> nat) \<times> int option" where
  "parse_isoformat_time tstr =
     (if length tstr < 2 then Inl ValueError
      else
        (let p = tz_pos tstr;
             timestr = (if p > 0 then take (p - 1) tstr else tstr)
         in case parse_hh_mm_ss_ff timestr of
              Inl e \<Rightarrow> Inl e
            | Inr time_comps \<Rightarrow>
                if p > 0 then
                  (let tzstr = drop p tstr in
                   if length tzstr \<notin> set [5, 8, 15] then Inl ValueError
                   else case parse_hh_mm_ss_ff tzstr of
                     Inl e \<Rightarrow> Inl e
                   | Inr (th, tm, ts, tf) \<Rightarrow>
                       if th = 0 \<and> tm = 0 \<and> ts = 0 \<and> tf = 0 then Inr (time_comps, Some 0)
                       else
                         (let tzsign = (if tstr ! (p - 1) = CHR ''-'' then - 1 else 1 :: int);
                              td = int (th * 3600000000 + tm * 60000000 + ts * 1000000 + tf)
                          in if td < microseconds_per_day then Inr (time_comps, Some (tzsign * td))
                             else Inl ValueError))
                else Inr (time_comps, None)))"

text \<open>The range checks of the \<^verbatim>\<open>datetime\<close> constructor.\<close>

definition is_leap :: "nat \<Rightarrow> bool" where
  "is_leap y = (y mod 4 = 0 \<and> (y mod 100 \<noteq> 0 \<or> y mod 400 = 0))"

definition days_in_month :: "nat \<Rightarrow> nat \<Rightarrow> nat" where
  "days_in_month y m =
     (if m = 2 then (if is_leap y then 29 else 28)
      else if m \<in> set [4, 6, 9, 11] then 30 else 31)"

definition valid_datetime :: "datetime \<Rightarrow> bool" where
  "valid_datetime d =
     (1 \<le> dt_year d \<and> dt_year d \<le> 9999 \<and> 1 \<le> dt_month d \<and> dt_month d \<le> 12
      \<and> 1 \<le> dt_day d \<and> dt_day d \<le> days_in_month (dt_year d) (dt_month d)
      \<and> dt_hour d < 24 \<and> dt_minute d < 60 \<and> dt_second d < 60 \<and> dt_microsecond d < 1000000
      \<and> (case dt_utcoffset d of
            None \<Rightarrow> True
          | Some x \<Rightarrow> - microseconds_per_day < x \<and> x < microseconds_per_day))"

text \<open>
  \<^verbatim>\<open>datetime.fromisoformat\<close>: the date is the first ten characters, the character at
  index 10 is the separator, the time is the rest.
\<close>

definition parse_isoformat_date :: "string \<Rightarrow> exception + nat \<times> nat \<times> nat" where
  "parse_isoformat_date dstr =
     (if length dstr \<noteq> 10 then Inl ValueError
      else case py_int (take 4 dstr) of
        Inl e \<Rightarrow> Inl e
      | Inr y \<Rightarrow>
          if dstr ! 4 \<noteq> CHR ''-'' then Inl ValueError
          else case py_int (take 2 (drop 5 dstr)) of
            Inl e \<Rightarrow> Inl e
          | Inr m \<Rightarrow>
              if dstr ! 7 \<noteq> CHR ''-'' then Inl ValueError
              else case py_int (take 2 (drop 8 dstr)) of
                Inl e \<Rightarrow> Inl e
              | Inr dd \<Rightarrow> Inr (y, m, dd))"

definition fromisoformat :: "string \<Rightarrow> exception + datetime" where
  "fromisoformat date_string =
     (case parse_isoformat_date (take 10 date_string) of
        Inl e \<Rightarrow> Inl e
      | Inr (y, m, dd) \<Rightarrow>
          (let tstr = drop 11 date_string in
           case (if tstr \<noteq> [] then parse_isoformat_time tstr else Inr ((0, 0, 0, 0), None)) of
             Inl e \<Rightarrow> Inl e
           | Inr ((hh, mi, ss, us), tz) \<Rightarrow>
               (let d = \<lparr>dt_year = y, dt_month = m, dt_day = dd, dt_hour = hh, dt_minute = mi,
                         dt_second = ss, dt_microsecond = us, dt_utcoffset = tz\<rparr>
                in if valid_datetime d then Inr d else Inl ValueError)))"

section \<open>The durable state file\<close>

text \<open>\<^verbatim>\<open>ExitNodeInfo.to_dict\<close>.\<close>

definition to_dict :: "ExitNodeInfo \<Rightarrow> json" where
  "to_dict n =
     JObject [(''droplet_id'', JString (droplet_id n)),
              (''name'', JString (name n)),
              (''public_ip'', JString (public_ip n)),
              (''tailscale_ip'', JString (tailscale_ip n)),
              (''region'', JString (region n)),
              (''status'', JString (status n)),
              (''created_at'', JString (isoformat (created_at n))),
              (''last_checked'', JString (isoformat (last_checked n)))]"

text \<open>
  \<^verbatim>\<open>data[key]\<close> on a value read from JSON: \<^verbatim>\<open>KeyError\<close> when an object lacks
  the key (a repeated key keeps its last value), \<^verbatim>\<open>TypeError\<close> when the value is not
  an object. The fields of the dataclass are strings, as it declares them and as every
  writer in the program produces them; a member of another JSON type is answered with
  \<^verbatim>\<open>TypeError\<close>, which is what \<^verbatim>\<open>fromisoformat\<close> does with it.
\<close>

definition subscript :: "json \<Rightarrow> string \<Rightarrow> exception + json" where
  "subscript data k =
     (case data of
        JObject members \<Rightarrow>
          (case map_of (rev members) k of None \<Rightarrow> Inl KeyError | Some v \<Rightarrow> Inr v)
      | _ \<Rightarrow> Inl TypeError)"

definition str_member :: "json \<Rightarrow> string \<Rightarrow> exception + string" where
  "str_member data k =
     (case subscript data k of
        Inl e \<Rightarrow> Inl e
      | Inr (JString s) \<Rightarrow> Inr s
      | Inr _ \<Rightarrow> Inl TypeError)"

text \<open>
  \<^verbatim>\<open>ExitNodeInfo.from_dict\<close>: the arguments are evaluated in the order written, and
  the first exception ends the call (\<open>bind_exc\<close>).
\<close>

definition bind_exc :: "exception + 'a \<Rightarrow> ('a \<Rightarrow> exception + 'b) \<Rightarrow> exception + 'b" where
  "bind_exc x f = (case x of Inl e \<Rightarrow> Inl e | Inr v \<Rightarrow> f v)"

definition from_dict :: "json \<Rightarrow> exception + ExitNodeInfo" where
  "from_dict data =
     bind_exc (str_member data ''droplet_id'') (\<lambda>v1.
     bind_exc (str_member data ''name'') (\<lambda>v2.
     bind_exc (str_member data ''public_ip'') (\<lambda>v3.
     bind_exc (str_member data ''tailscale_ip'') (\<lambda>v4.
     bind_exc (str_member data ''region'') (\<lambda>v5.
     bind_exc (str_member data ''status'') (\<lambda>v6.
     bind_exc (str_member data ''created_at'') (\<lambda>s7.
     bind_exc (fromisoformat s7) (\<lambda>v7.
     bind_exc (str_member data ''last_checked'') (\<lambda>s8.
     bind_exc (fromisoformat s8) (\<lambda>v8.
       Inr \<lparr>droplet_id = v1, name = v2, public_ip = v3, tailscale_ip = v4, region = v5,
            status = v6, created_at = v7, last_checked = v8\<rparr>))))))))))"

text \<open>The list comprehension of \<^verbatim>\<open>_load_exit_nodes\<close>: it stops at the first exception.\<close>

fun from_dict_all :: "json list \<Rightarrow> exception + ExitNodeInfo list" where
  "from_dict_all [] = Inr []"
| "from_dict_all (node_data # rest) =
     (case from_dict node_data of
        Inl e \<Rightarrow> Inl e
      | Inr n \<Rightarrow> (case from_dict_all rest of Inl e \<Rightarrow> Inl e | Inr ns \<Rightarrow> Inr (n # ns)))"

text \<open>
  Iterating over the loaded document: the elements of an array; the keys of an object
  and the characters of a string, each a string; any other value is not iterable.
\<close>

definition iterate :: "json \<Rightarrow> exception + json list" where
  "iterate data =
     (case data of
        JArray items \<Rightarrow> Inr items
      | JObject members \<Rightarrow> Inr (map JString (remdups (map fst members)))
      | JString s \<Rightarrow> Inr (map (\<lambda>c. JString [c]) s)
      | _ \<Rightarrow> Inl TypeError)"

definition parse_exit_nodes :: "file_content \<Rightarrow> exception + ExitNodeInfo list" where
  "parse_exit_nodes f =
     (case f of
        FileMissing \<Rightarrow> Inl FileNotFoundError
      | FileNotJson \<Rightarrow> Inl JSONDecodeError
      | FileJson data \<Rightarrow>
          (case iterate data of Inl e \<Rightarrow> Inl e | Inr items \<Rightarrow> from_dict_all items))"

text \<open>
  \<^verbatim>\<open>_load_exit_nodes\<close>: an absent file gives the empty list; so does every exception
  raised while the file is read and converted (both handlers fall through to
  \<^verbatim>\<open>return []\<close>).
\<close>

definition load_exit_nodes :: "file_content \<Rightarrow> ExitNodeInfo list" where
  "load_exit_nodes f =
     (if f = FileMissing then []
      else (case parse_exit_nodes f of Inl e \<Rightarrow> [] | Inr nodes \<Rightarrow> nodes))"

text \<open>
  \<^verbatim>\<open>_save_exit_nodes\<close>: the list of dictionaries is written as one JSON array; an
  exception while writing is logged and swallowed.
\<close>

definition saved_document :: "ExitNodeInfo list \<Rightarrow> file_content" where
  "saved_document nodes = FileJson (JArray (map to_dict nodes))"

definition save_exit_nodes :: "world \<Rightarrow> manager \<Rightarrow> event list \<times> manager" where
  "save_exit_nodes w m =
     (case write_fails w of
        Some e \<Rightarrow> ([WriteStateFile], m)
      | None \<Rightarrow> ([WriteStateFile], m\<lparr>exit_nodes_file := saved_document (exit_nodes m)\<rparr>))"

section \<open>One reconciliation cycle\<close>

text \<open>
  The body of the loop of \<^verbatim>\<open>run\<close> up to the sleep: health check, cleanup,
  provisioning decision, save. An exception ends the cycle (the handler of \<^verbatim>\<open>run\<close>
  logs it and pauses); \<open>Inr\<close> is a cycle that completed.
\<close>

definition run_cycle :: "world \<Rightarrow> manager \<Rightarrow> event list \<times> (exception + manager)" where
  "run_cycle w m =
     (case check_existing_nodes w m of
        (ev1, Inl e) \<Rightarrow> (ev1, Inl e)
      | (ev1, Inr (m1, healthy_nodes)) \<Rightarrow>
          (case cleanup_failed_nodes w m1 of
             (ev2, Inl e) \<Rightarrow> (ev1 @ ev2, Inl e)
           | (ev2, Inr m2) \<Rightarrow>
               (case provision_shortfall w m2 of
                  (ev3, Inl e) \<Rightarrow> (ev1 @ ev2 @ ev3, Inl e)
                | (ev3, Inr m3) \<Rightarrow>
                    (case save_exit_nodes w m3 of
                       (ev4, m4) \<Rightarrow> (ev1 @ ev2 @ ev3 @ ev4, Inr m4)))))"

section \<open>Configuration and startup\<close>

text \<open>
  \<^verbatim>\<open>Config.__post_init__\<close>, which the dataclass runs at the end of construction: an
  empty string is false for \<^verbatim>\<open>not\<close>.
\<close>

definition post_init :: "Config \<Rightarrow> exception + Config" where
  "post_init c =
     (if do_token c = [] then Inl ConfigurationError
      else if ts_authkey c = [] then Inl ConfigurationError
      else if target_nodes c > max_nodes c then Inl ConfigurationError
      else Inr c)"

text \<open>
  \<^verbatim>\<open>main\<close>. Its first statement builds the configuration (\<^verbatim>\<open>Config.from_env\<close>,
  here on the field values read from the environment); everything after it, the
  logging setup, the construction of the manager (whose initialisation makes the first
  provider calls) and \<^verbatim>\<open>manager.run()\<close>, is the parameter \<open>start\<close>, which
  yields its trace and the exception that ended it, if any. A
  \<^verbatim>\<open>ConfigurationError\<close> and any other exception both end in \<^verbatim>\<open>sys.exit(1)\<close>,
  under different log messages.
\<close>

datatype main_outcome = Finished | ConfigurationFailure | UnexpectedFailure

definition main_handlers :: "exception \<Rightarrow> main_outcome" where
  "main_handlers e = (if e = ConfigurationError then ConfigurationFailure else UnexpectedFailure)"

definition main :: "Config \<Rightarrow> (Config \<Rightarrow> event list \<times> exception option) \<Rightarrow> event list \<times> main_outcome" where
  "main env_fields start =
     (case post_init env_fields of
        Inl e \<Rightarrow> ([], main_handlers e)
      | Inr cfg \<Rightarrow>
          (case start cfg of
             (evs, None) \<Rightarrow> (evs, Finished)
           | (evs, Some e) \<Rightarrow> (evs, main_handlers e)))"

section \<open>The provisioning payload builder\<close>









section \<open>Definitions used in the statements and proofs\<close>

text \<open>
  Names for what the loop of the health check does to the node at one position
  (\<open>vanished\<close>, \<open>checked_node\<close>), for the listing a cycle works with
  (\<open>inventory_of\<close>), for the tracked list after the health check (\<open>surviving\<close>),
  for the manager on which the provisioning decision is taken (\<open>after_cleanup\<close>) and
  for the tracked count of a completed cycle (\<open>tracked_count_after\<close>).
\<close>

definition vanished :: "world \<Rightarrow> (string \<rightharpoonup> Droplet) \<Rightarrow> nat \<times> ExitNodeInfo \<Rightarrow> bool" where
  "vanished w inventory p = (snd (check_node w inventory (fst p) (snd p)) = Vanished)"

definition checked_node :: "world \<Rightarrow> (string \<rightharpoonup> Droplet) \<Rightarrow> nat \<times> ExitNodeInfo \<Rightarrow> ExitNodeInfo" where
  "checked_node w inventory p =
     (case snd (check_node w inventory (fst p) (snd p)) of
        Vanished \<Rightarrow> snd p | Checked n h \<Rightarrow> n)"

definition inventory_of :: "world \<Rightarrow> manager \<Rightarrow> (string \<rightharpoonup> Droplet)" where
  "inventory_of w m = droplets_by_id (snd (snd (get_droplets w (do_client m) False)))"

definition surviving :: "world \<Rightarrow> manager \<Rightarrow> ExitNodeInfo list" where
  "surviving w m =
     map (checked_node w (inventory_of w m))
       (filter (\<lambda>z. \<not> vanished w (inventory_of w m) z) (zip [0..<length (exit_nodes m)] (exit_nodes m)))"

definition after_cleanup :: "world \<Rightarrow> manager \<Rightarrow> manager" where
  "after_cleanup w m =
     (case snd (check_existing_nodes w m) of
        Inl e \<Rightarrow> m
      | Inr (m1, healthy_nodes) \<Rightarrow>
          (case snd (cleanup_failed_nodes w m1) of Inl e \<Rightarrow> m | Inr m2 \<Rightarrow> m2))"



text \<open>
  The text that \<open>format_offset\<close> prints after the sign, for an offset of \<open>a\<close>
  microseconds.
\<close>

definition offset_text :: "nat \<Rightarrow> string" where
  "offset_text a =
     zero_pad 2 (a div 3600000000) @ '':'' @ zero_pad 2 ((a mod 3600000000) div 60000000)
     @ (if (a mod 60000000) div 1000000 \<noteq> 0 \<or> a mod 1000000 \<noteq> 0
        then '':'' @ zero_pad 2 ((a mod 60000000) div 1000000)
             @ (if a mod 1000000 \<noteq> 0 then ''.'' @ zero_pad 6 (a mod 1000000) else [])
        else [])"


section \<open>Concrete fleets, worlds and templates\<close>

text \<open>
  Two clock readings, a tracked node and a droplet with a given id and status, an HTTP
  answer with status 200, a provisioning worker whose creation request always fails, and
  a world in which the provider lists the given droplets and every probe succeeds.
\<close>

definition ex_time :: datetime where
  "ex_time = \<lparr>dt_year = 2024, dt_month = 5, dt_day = 17, dt_hour = 8, dt_minute = 30,
              dt_second = 15, dt_microsecond = 123456, dt_utcoffset = Some 0\<rparr>"

definition ex_later :: datetime where
  "ex_later = \<lparr>dt_year = 2024, dt_month = 5, dt_day = 17, dt_hour = 8, dt_minute = 35,
               dt_second = 15, dt_microsecond = 654321, dt_utcoffset = Some 0\<rparr>"

definition ex_node :: "string \<Rightarrow> string \<Rightarrow> ExitNodeInfo" where
  "ex_node i st = \<lparr>droplet_id = i, name = ''tailscale-exit-fra1-1715934615'',
                   public_ip = ''203.0.113.7'', tailscale_ip = ''100.64.0.5'', region = ''fra1'',
                   status = st, created_at = ex_time, last_checked = ex_time\<rparr>"

definition ex_droplet :: "string \<Rightarrow> string \<Rightarrow> Droplet" where
  "ex_droplet i st = \<lparr>d_id = i, d_name = ''tailscale-exit-fra1-1715934615'',
                      ip_address = Some ''203.0.113.7'', d_status = st\<rparr>"

definition ok_response :: response where
  "ok_response = \<lparr>status_code = 200, text_body = ''100.64.0.5'', json_body = Inr (JObject [])\<rparr>"

definition failing_worker :: attempt_world where
  "failing_worker = \<lparr>provider_create = (\<lambda>k. Inl OtherException),
                      ready_probe = (\<lambda>k u. Inl RequestException),
                      status_http = (\<lambda>u. Inl RequestException),
                      destroy_created = None, now_created = ex_later, now_checked = ex_later\<rparr>"

definition ex_world :: "Droplet list \<Rightarrow> world" where
  "ex_world listing =
     \<lparr>time_now = 1000, get_all_droplets = Inr listing, http_get = (\<lambda>u. Inr ok_response),
      ip_valid = (\<lambda>ip. True), utc_now = (\<lambda>i. ex_later), check_fault = (\<lambda>i. None),
      provider_get_droplet = (\<lambda>i. Inl OtherException), provider_destroy = (\<lambda>d. None),
      worker = (\<lambda>i. failing_worker), write_fails = None\<rparr>"

definition ex_config :: "int \<Rightarrow> int \<Rightarrow> Config" where
  "ex_config target mx =
     \<lparr>do_token = ''dop_v1_token'', ts_authkey = ''tskey-auth-1'',
      login_server = ''https://controlplane.tailscale.com'', config_region = ''fra1'',
      image_name = ''ubuntu-22-04'', name_prefix = ''tailscale-exit'', target_nodes = target,
      max_nodes = mx, health_check_interval = 300, log_level = ''INFO''\<rparr>"

definition ex_manager :: "int \<Rightarrow> int \<Rightarrow> ExitNodeInfo list \<Rightarrow> manager" where
  "ex_manager target mx nodes =
     \<lparr>config = ex_config target mx,
      do_client = \<lparr>droplets_cache = None, cache_time = None\<rparr>,
      region_slug = ''fra1'', exit_nodes = nodes, exit_nodes_file = FileMissing\<rparr>"

definition scenario_d_world :: world where
  "scenario_d_world = ex_world [ex_droplet ''101'' ''active'']"

definition scenario_d_manager :: manager where
  "scenario_d_manager = ex_manager 6 3 [ex_node ''101'' ''healthy'']"



text \<open>Worlds and fleets for the evaluation of the health check and the cleanup.\<close>

definition outage_world :: world where
  "outage_world = (ex_world [])\<lparr>get_all_droplets := Inl RequestException\<rparr>"

definition two_node_manager :: manager where
  "two_node_manager = ex_manager 1 3 [ex_node ''101'' ''healthy'', ex_node ''102'' ''healthy'']"

definition failing_destroy_world :: world where
  "failing_destroy_world =
     (ex_world [])\<lparr>provider_get_droplet := (\<lambda>i. Inr (ex_droplet i ''active'')),
                   provider_destroy := (\<lambda>d. Some RequestException)\<rparr>"

definition mixed_manager :: manager where
  "mixed_manager = ex_manager 1 3 [ex_node ''101'' ''unhealthy'', ex_node ''102'' ''healthy'']"

definition stopped_world :: world where
  "stopped_world = ex_world [ex_droplet ''101'' ''off'']"

definition one_node_manager :: manager where
  "one_node_manager = ex_manager 1 3 [ex_node ''101'' ''healthy'']"

text \<open>Worlds for the evaluation of startup, the prober and the readiness wait.\<close>

definition eager_start :: "Config \<Rightarrow> event list \<times> exception option" where
  "eager_start c = ([GetAllDroplets], None)"









section \<open>Lemmas\<close>

lemma retry_from_events:
  assumes "\<And>k e. e \<in> set (fst (body k)) \<Longrightarrow> P e" and "\<And>n. P (Sleep n)"
  shows "e \<in> set (fst (retry_from retry wait body k r)) \<Longrightarrow> P e"
proof (induction r arbitrary: k e)
  case 0
  then show ?case using assms(1)[of _ k]
    by (auto split: prod.splits sum.splits if_splits)
next
  case (Suc r)
  then show ?case using assms(1)[of _ k] assms(2)
    by (auto split: prod.splits sum.splits if_splits) (metis fst_conv)+
qed

lemma wait_for_http_ready_events:
  "e \<in> set (fst (wait_for_http_ready probe ip)) \<Longrightarrow> (\<exists>u. e = HttpGet u) \<or> (\<exists>n. e = Sleep n)"
  unfolding wait_for_http_ready_def tenacity_retry_def
  by (erule retry_from_events[rotated 2])
     (auto simp: wait_for_http_ready_body_def Let_def split: sum.splits if_splits)

lemma create_droplet_events:
  "e \<in> set (fst (create_droplet a)) \<Longrightarrow> e = CreateDroplet \<or> (\<exists>n. e = Sleep n)"
  unfolding create_droplet_def tenacity_retry_def
  by (erule retry_from_events[rotated 2])
     (auto simp: create_droplet_body_def split: sum.splits if_splits)

lemma get_status_via_http_events:
  "e \<in> set (fst (get_status_via_http http ip)) \<Longrightarrow> \<exists>u. e = HttpGet u"
  by (auto simp: get_status_via_http_def Let_def split: sum.splits if_splits)

lemma get_node_status_events:
  "e \<in> set (fst (get_node_status valid http d)) \<Longrightarrow> \<exists>u. e = HttpGet u"
  using get_status_via_http_events[of e http]
  by (auto simp: get_node_status_def split: option.splits if_splits prod.splits sum.splits)
     (metis fst_conv)+

lemma reachable_has_tailscale_ip:
  "get_node_status valid http d = (evs, Some ns) \<Longrightarrow> ns_is_reachable ns \<Longrightarrow>
     \<exists>t. ns_tailscale_ip ns = Some t"
  by (auto simp: get_node_status_def node_status_of_def
           split: option.splits if_splits prod.splits sum.splits status_info.splits)

lemma destroy_failed_droplet_events:
  "fst (destroy_failed_droplet a d) = [Destroy (d_id d)]"
  by (simp add: destroy_failed_droplet_def split: option.splits)

lemma provision_single_node_no_submit:
  "e \<in> set (fst (provision_single_node valid slug a)) \<Longrightarrow> \<not> is_submit e"
  using create_droplet_events[of e a] wait_for_http_ready_events[of e "ready_probe a"]
    get_node_status_events[of e valid "status_http a"]
  by (auto simp: provision_single_node_def destroy_failed_droplet_def
           split: prod.splits sum.splits option.splits if_splits)
     (metis fst_conv is_submit.simps)+

lemma remove_each_skip:
  "\<forall>r \<in> set rs. r \<noteq> a \<Longrightarrow>
   remove_each rs (a # ys) = (case remove_each rs ys of Inl e \<Rightarrow> Inl e | Inr zs \<Rightarrow> Inr (a # zs))"
proof (induction rs arbitrary: ys)
  case Nil
  then show ?case by simp
next
  case (Cons r rs)
  then show ?case by (auto simp: list_remove_def split: sum.splits)
qed

lemma remove_each_marked:
  assumes "\<And>x. x \<in> set xs \<Longrightarrow> P x \<Longrightarrow> g x = x"
      and "\<And>x. x \<in> set xs \<Longrightarrow> \<not> P x \<Longrightarrow> \<not> P (g x)"
  shows "remove_each (filter P xs) (map g xs) = Inr (map g (filter (\<lambda>x. \<not> P x) xs))"
  using assms
proof (induction xs)
  case Nil
  then show ?case by simp
next
  case (Cons x xs)
  show ?case
  proof (cases "P x")
    case True
    then have "g x = x" using Cons.prems(1) by simp
    then show ?thesis using True Cons by (simp add: list_remove_def)
  next
    case False
    then have "\<not> P (g x)" using Cons.prems(2) by simp
    then have "\<forall>r \<in> set (filter P xs). r \<noteq> g x" by auto
    then show ?thesis using False Cons by (simp add: remove_each_skip)
  qed
qed

lemma remove_each_filter:
  "remove_each (filter P xs) xs = Inr (filter (\<lambda>x. \<not> P x) xs)"
  using remove_each_marked[of xs P id] by simp

lemma cleanup_loop_to_remove: "snd (cleanup_loop w xs) = filter is_failed xs"
  by (induction xs) (auto split: prod.splits)

lemma cleanup_failed_nodes_result:
  "snd (cleanup_failed_nodes w m) = Inr (m\<lparr>exit_nodes := filter (\<lambda>n. \<not> is_failed n) (exit_nodes m)\<rparr>)"
  using cleanup_loop_to_remove[of w "exit_nodes m"]
  by (auto simp: cleanup_failed_nodes_def remove_each_filter split: prod.splits sum.splits)

lemma check_loop_nodes:
  "fst (snd (check_loop w inventory i xs)) = map (checked_node w inventory) (zip [i..<i + length xs] xs)"
proof (induction xs arbitrary: i)
  case Nil
  then show ?case by simp
next
  case (Cons x xs)
  have "[i..<i + length (x # xs)] = i # [Suc i..<Suc i + length xs]"
    using upt_rec[of i "i + length (x # xs)"] by simp
  then show ?case using Cons[of "Suc i"]
    by (auto simp: checked_node_def split: prod.splits check_result.splits)
qed

lemma check_loop_to_remove:
  "fst (snd (snd (check_loop w inventory i xs))) =
     map snd (filter (vanished w inventory) (zip [i..<i + length xs] xs))"
proof (induction xs arbitrary: i)
  case Nil
  then show ?case by simp
next
  case (Cons x xs)
  have "[i..<i + length (x # xs)] = i # [Suc i..<Suc i + length xs]"
    using upt_rec[of i "i + length (x # xs)"] by simp
  then show ?case using Cons[of "Suc i"]
    by (auto simp: vanished_def split: prod.splits check_result.splits)
qed

lemma remove_each_mapped:
  assumes "\<And>z. z \<in> set zs \<Longrightarrow> V z \<Longrightarrow> g z = f z"
      and "\<And>z z'. z \<in> set zs \<Longrightarrow> z' \<in> set zs \<Longrightarrow> \<not> V z \<Longrightarrow> V z' \<Longrightarrow> g z \<noteq> f z'"
  shows "remove_each (map f (filter V zs)) (map g zs) = Inr (map g (filter (\<lambda>z. \<not> V z) zs))"
  using assms
proof (induction zs)
  case Nil
  then show ?case by simp
next
  case (Cons z zs)
  have IH: "remove_each (map f (filter V zs)) (map g zs) = Inr (map g (filter (\<lambda>z. \<not> V z) zs))"
    using Cons by simp
  show ?case
  proof (cases "V z")
    case True
    then have "g z = f z" using Cons.prems(1) by simp
    then show ?thesis using True IH by (simp add: list_remove_def)
  next
    case False
    then have "\<forall>r \<in> set (map f (filter V zs)). r \<noteq> g z"
      using Cons.prems(2)[of z] by fastforce
    then show ?thesis using False IH by (simp add: remove_each_skip)
  qed
qed

lemma checked_node_vanished: "vanished w inventory z \<Longrightarrow> checked_node w inventory z = snd z"
  by (simp add: vanished_def checked_node_def)

lemma vanished_iff: "vanished w inventory z \<longleftrightarrow> inventory (droplet_id (snd z)) = None"
  by (auto simp: vanished_def check_node_def split: option.splits prod.splits if_splits)

lemma checked_node_droplet_id: "droplet_id (checked_node w inventory z) = droplet_id (snd z)"
  by (auto simp: checked_node_def check_node_def split: option.splits prod.splits if_splits check_result.splits)

lemma check_loop_remove_each:
  "remove_each (fst (snd (snd (check_loop w inventory i xs)))) (fst (snd (check_loop w inventory i xs)))
   = Inr (map (checked_node w inventory)
            (filter (\<lambda>z. \<not> vanished w inventory z) (zip [i..<i + length xs] xs)))"
  unfolding check_loop_nodes check_loop_to_remove
proof (rule remove_each_mapped)
  fix z assume "vanished w inventory z"
  then show "checked_node w inventory z = snd z" by (rule checked_node_vanished)
next
  fix z z' assume "\<not> vanished w inventory z" "vanished w inventory z'"
  then have "droplet_id (checked_node w inventory z) \<noteq> droplet_id (snd z')"
    by (auto simp: vanished_iff checked_node_droplet_id)
  then show "checked_node w inventory z \<noteq> snd z'" by auto
qed

lemma check_existing_nodes_result:
  "\<exists>healthy. snd (check_existing_nodes w m) =
     Inr (m\<lparr>do_client := fst (snd (get_droplets w (do_client m) False)),
            exit_nodes := surviving w m\<rparr>, healthy)"
proof -
  obtain ev0 c' listing where g: "get_droplets w (do_client m) False = (ev0, c', listing)"
    by (cases "get_droplets w (do_client m) False") auto
  obtain ev1 nodes rem healthy where
    l: "check_loop w (droplets_by_id listing) 0 (exit_nodes m) = (ev1, nodes, rem, healthy)"
    by (cases "check_loop w (droplets_by_id listing) 0 (exit_nodes m)") auto
  have "remove_each rem nodes = Inr (surviving w m)"
    using check_loop_remove_each[of w "droplets_by_id listing" 0 "exit_nodes m"] g l
    by (simp add: surviving_def inventory_of_def)
  then show ?thesis using g l by (auto simp: check_existing_nodes_def)
qed



lemma provision_nodes_total:
  "0 < c \<Longrightarrow> \<exists>m'. snd (provision_nodes w m c) = Inr m' \<and> config m' = config m"
  by (auto simp: provision_nodes_def Let_def)

lemma provision_shortfall_total:
  "\<exists>m'. snd (provision_shortfall w m) = Inr m' \<and> config m' = config m"
  using provision_nodes_total[of "needed m" w m] provision_nodes_total[of "max_can_create m" w m]
  by (auto simp: provision_shortfall_def)


lemma check_loop_events:
  "e \<in> set (fst (check_loop w inventory i xs)) \<Longrightarrow> \<exists>u. e = HttpGet u"
proof (induction xs arbitrary: i)
  case Nil
  then show ?case by simp
next
  case (Cons x xs)
  have "e \<in> set (fst (check_node w inventory i x)) \<Longrightarrow> \<exists>u. e = HttpGet u" for e
    using get_node_status_events[of e "ip_valid w" "http_get w"]
    by (auto simp: check_node_def split: option.splits if_splits prod.splits) (metis fst_conv)+
  then show ?case using Cons
    by (auto split: prod.splits check_result.splits) (metis fst_conv)+
qed

lemma get_droplets_events:
  "e \<in> set (fst (get_droplets w c f)) \<Longrightarrow> e = GetAllDroplets"
  by (auto simp: get_droplets_def Let_def split: sum.splits if_splits)

lemma check_existing_nodes_events:
  "e \<in> set (fst (check_existing_nodes w m)) \<Longrightarrow> e = GetAllDroplets \<or> (\<exists>u. e = HttpGet u)"
  using get_droplets_events[of e w "do_client m" False]
    check_loop_events[of e w _ 0 "exit_nodes m"]
  by (auto simp: check_existing_nodes_def split: prod.splits sum.splits) (metis fst_conv)+

lemma cleanup_loop_events:
  "e \<in> set (fst (cleanup_loop w xs)) \<Longrightarrow> (\<exists>i. e = GetDroplet i) \<or> (\<exists>i. e = Destroy i)"
  by (induction xs) (auto simp: destroy_node_def split: prod.splits sum.splits option.splits if_splits)

lemma cleanup_failed_nodes_events:
  "e \<in> set (fst (cleanup_failed_nodes w m)) \<Longrightarrow> (\<exists>i. e = GetDroplet i) \<or> (\<exists>i. e = Destroy i)"
  using cleanup_loop_events[of e w "exit_nodes m"]
  by (auto simp: cleanup_failed_nodes_def split: prod.splits sum.splits)

lemma filter_submit_none: "(\<And>e. e \<in> set evs \<Longrightarrow> \<not> is_submit e) \<Longrightarrow> filter is_submit evs = []"
  by (induction evs) auto

lemma check_existing_nodes_no_submit: "filter is_submit (fst (check_existing_nodes w m)) = []"
  by (rule filter_submit_none) (auto dest: check_existing_nodes_events)

lemma cleanup_failed_nodes_no_submit: "filter is_submit (fst (cleanup_failed_nodes w m)) = []"
  by (rule filter_submit_none) (auto dest: cleanup_failed_nodes_events)

lemma save_exit_nodes_events: "fst (save_exit_nodes w m) = [WriteStateFile]"
  by (simp add: save_exit_nodes_def split: option.splits)

lemma provision_nodes_submits:
  "0 < c \<Longrightarrow> length (filter is_submit (fst (provision_nodes w m c))) = nat c"
proof -
  assume "0 < c"
  have "filter is_submit (concat (map fst (run_workers w (region_slug m) (nat c)))) = []"
    by (rule filter_submit_none) (auto simp: run_workers_def dest: provision_single_node_no_submit)
  moreover have "filter is_submit (map SubmitProvision [0..<nat c]) = map SubmitProvision [0..<nat c]"
    by (induction "nat c") (auto simp: filter_map comp_def)
  ultimately show ?thesis using \<open>0 < c\<close> by (simp add: provision_nodes_def Let_def)
qed

lemma provision_shortfall_submits:
  "length (filter is_submit (fst (provision_shortfall w m))) =
     nat (if int (length (exit_nodes m)) + needed m \<le> max_nodes (config m)
          then needed m else max_can_create m)"
  by (auto simp: provision_shortfall_def provision_nodes_submits needed_def max_can_create_def)

lemma run_cycle_after_cleanup:
  "fst (run_cycle w m) = fst (check_existing_nodes w m)
      @ fst (cleanup_failed_nodes w (fst (projr (snd (check_existing_nodes w m)))))
      @ fst (provision_shortfall w (after_cleanup w m)) @ [WriteStateFile]"
proof -
  obtain h where c: "snd (check_existing_nodes w m) =
     Inr (m\<lparr>do_client := fst (snd (get_droplets w (do_client m) False)), exit_nodes := surviving w m\<rparr>, h)"
    using check_existing_nodes_result by blast
  show ?thesis
    using c cleanup_failed_nodes_result[of w "fst (projr (snd (check_existing_nodes w m)))"]
      provision_shortfall_total[of w "after_cleanup w m"]
    by (cases "check_existing_nodes w m"; cases "cleanup_failed_nodes w (fst (projr (snd (check_existing_nodes w m))))";
        cases "provision_shortfall w (after_cleanup w m)")
       (auto simp: run_cycle_def after_cleanup_def save_exit_nodes_def split: prod.splits sum.splits option.splits)
qed

lemma after_cleanup_eq:
  "after_cleanup w m =
     m\<lparr>do_client := fst (snd (get_droplets w (do_client m) False)),
       exit_nodes := filter (\<lambda>n. \<not> is_failed n) (surviving w m)\<rparr>"
proof -
  obtain h where c: "snd (check_existing_nodes w m) =
     Inr (m\<lparr>do_client := fst (snd (get_droplets w (do_client m) False)), exit_nodes := surviving w m\<rparr>, h)"
    using check_existing_nodes_result by blast
  show ?thesis using c by (simp add: after_cleanup_def cleanup_failed_nodes_result)
qed



lemma get_node_status_ex:
  "get_node_status (\<lambda>ip. True) (\<lambda>u. Inr ok_response) (ex_droplet i ''active'')
     = ([HttpGet ''http://203.0.113.7:8080/setup-complete'',
         HttpGet ''http://203.0.113.7:8080/tailscale-ip.txt'',
         HttpGet ''http://203.0.113.7:8080/tailscale-status.json''],
        Some \<lparr>ns_public_ip = ''203.0.113.7'', ns_tailscale_ip = Some ''100.64.0.5'',
             ns_is_reachable = True, ns_tailscale_status = JObject []\<rparr>)"
  by (simp add: get_node_status_def get_status_via_http_def ex_droplet_def ok_response_def
        node_status_of_def strip_def py_isspace_def Let_def setup_complete_url_def
        tailscale_ip_url_def tailscale_status_url_def)

lemma ex_droplet_sel [simp]:
  "d_id (ex_droplet i st) = i" "d_status (ex_droplet i st) = st"
  by (simp_all add: ex_droplet_def)

lemma ex_world_sel [simp]:
  "get_all_droplets (ex_world l) = Inr l" "http_get (ex_world l) = (\<lambda>u. Inr ok_response)"
  "ip_valid (ex_world l) = (\<lambda>ip. True)" "utc_now (ex_world l) i = ex_later"
  "check_fault (ex_world l) i = None" "time_now (ex_world l) = 1000"
  "worker (ex_world l) i = failing_worker" "write_fails (ex_world l) = None"
  by (simp_all add: ex_world_def)

lemma ex_manager_sel [simp]:
  "exit_nodes (ex_manager t mx ns) = ns" "config (ex_manager t mx ns) = ex_config t mx"
  "do_client (ex_manager t mx ns) = \<lparr>droplets_cache = None, cache_time = None\<rparr>"
  by (simp_all add: ex_manager_def)

lemma ex_config_sel [simp]:
  "target_nodes (ex_config t mx) = t" "max_nodes (ex_config t mx) = mx"
  by (simp_all add: ex_config_def)

lemma ex_node_sel [simp]:
  "droplet_id (ex_node i st) = i" "status (ex_node i st) = st"
  by (simp_all add: ex_node_def)

lemma inventory_of_ex:
  "inventory_of (ex_world l) (ex_manager t mx ns) = droplets_by_id l"
  by (simp add: inventory_of_def get_droplets_def cache_expired_def)

lemma checked_node_ex:
  "inventory i = Some (ex_droplet i ''active'') \<Longrightarrow>
   checked_node (ex_world l) inventory (k, ex_node i st) =
     (ex_node i st)\<lparr>status := ''healthy'', tailscale_ip := ''100.64.0.5'', last_checked := ex_later\<rparr>"
  by (simp add: checked_node_def check_node_def get_node_status_ex)

lemma scenario_d_after_cleanup:
  "exit_nodes (after_cleanup scenario_d_world scenario_d_manager) =
     [(ex_node ''101'' ''healthy'')\<lparr>status := ''healthy'', tailscale_ip := ''100.64.0.5'',
         last_checked := ex_later\<rparr>]"
  by (simp add: after_cleanup_eq surviving_def scenario_d_world_def scenario_d_manager_def
        inventory_of_ex vanished_iff droplets_by_id_def checked_node_ex is_failed_def)



lemma get_droplets_failed_fetch:
  assumes "get_all_droplets w = Inl e"
      and "droplets_cache c = None \<or> droplets_cache c = Some []"
  shows "snd (get_droplets w c force) = (c, [])"
  using assms by (auto simp: get_droplets_def cache_or_empty_def Let_def)

lemma droplets_by_id_empty: "droplets_by_id [] = Map.empty"
  by (simp add: droplets_by_id_def)

lemma surviving_empty_inventory:
  "inventory_of w m = Map.empty \<Longrightarrow> surviving w m = []"
  by (simp add: surviving_def vanished_iff)

lemma cleanup_loop_trace_mem:
  "n \<in> set xs \<Longrightarrow> is_failed n \<Longrightarrow> set (destroy_node w n) \<subseteq> set (fst (cleanup_loop w xs))"
  by (induction xs) (auto split: prod.splits)

lemma destroy_node_lookup: "GetDroplet (droplet_id n) \<in> set (destroy_node w n)"
  by (simp add: destroy_node_def split: sum.splits option.splits)

lemma destroy_node_destroy:
  "provider_get_droplet w (droplet_id n) = Inr d \<Longrightarrow> Destroy (d_id d) \<in> set (destroy_node w n)"
  by (simp add: destroy_node_def split: sum.splits option.splits)

lemma fst_cleanup_failed_nodes: "fst (cleanup_failed_nodes w m) = fst (cleanup_loop w (exit_nodes m))"
  by (auto simp: cleanup_failed_nodes_def split: prod.splits sum.splits)

















lemma length_zero_pad: "length (zero_pad w n) = w"
  by (induction w arbitrary: n) simp_all

lemma of_char_digit_char: "d < 10 \<Longrightarrow> (of_char (digit_char d) :: nat) = 48 + d"
  by (simp add: digit_char_def)

lemma is_digit_digit_char: "d < 10 \<Longrightarrow> is_digit (digit_char d)"
  by (simp add: is_digit_def of_char_digit_char)

lemma digit_val_digit_char: "d < 10 \<Longrightarrow> digit_val (digit_char d) = d"
  by (simp add: digit_val_def of_char_digit_char)

lemma all_digits_zero_pad: "list_all is_digit (zero_pad w n)"
  by (induction w arbitrary: n) (simp_all add: is_digit_digit_char)

lemma foldl_zero_pad:
  "foldl (\<lambda>acc c. 10 * acc + digit_val c) 0 (zero_pad w n) = n mod 10 ^ w"
proof (induction w arbitrary: n)
  case 0
  then show ?case by simp
next
  case (Suc w)
  have "n mod (10 * 10 ^ w) = 10 * (n div 10 mod 10 ^ w) + n mod 10"
    by (rule mod_mult2_eq)
  then show ?case by (simp add: Suc digit_val_digit_char)
qed

lemma py_int_zero_pad: "0 < w \<Longrightarrow> n < 10 ^ w \<Longrightarrow> py_int (zero_pad w n) = Inr n"
proof -
  assume w: "0 < w" and n: "n < 10 ^ w"
  have "zero_pad w n \<noteq> []" using w length_zero_pad[of w n] by auto
  then show ?thesis using n by (simp add: py_int_def all_digits_zero_pad foldl_zero_pad)
qed

lemma digit_not_punct:
  "is_digit c \<Longrightarrow> c \<noteq> CHR ''-'' \<and> c \<noteq> CHR ''+'' \<and> c \<noteq> CHR '':'' \<and> c \<noteq> CHR ''.''"
  by (auto simp: is_digit_def)

lemma zero_pad_no_sign: "CHR ''-'' \<notin> set (zero_pad w n)" "CHR ''+'' \<notin> set (zero_pad w n)"
  using all_digits_zero_pad[of w n] digit_not_punct by (auto simp: list_all_iff)

lemma find_char_absent: "c \<notin> set xs \<Longrightarrow> find_char c xs = None"
  by (induction xs) auto

lemma find_char_first: "c \<notin> set xs \<Longrightarrow> find_char c (xs @ c # ys) = Some (length xs)"
  by (induction xs) auto

lemma parse_fraction_empty: "parse_fraction [] = Inr 0"
  by (simp add: parse_fraction_def)

lemma parse_fraction_micro:
  "us < 1000000 \<Longrightarrow> parse_fraction (CHR ''.'' # zero_pad 6 us) = Inr us"
  by (simp add: parse_fraction_def Let_def length_zero_pad py_int_zero_pad)

lemma parse_hh_mm:
  assumes "length a = 2" "length b = 2" "py_int a = Inr h" "py_int b = Inr m"
  shows "parse_hh_mm_ss_ff (a @ CHR '':'' # b) = Inr (h, m, 0, 0)"
  using assms by (simp add: parse_hh_mm_ss_ff_def Let_def)

lemma parse_hh_mm_ss:
  assumes "length a = 2" "length b = 2" "length c = 2"
      and "py_int a = Inr h" "py_int b = Inr m" "py_int c = Inr s"
  shows "parse_hh_mm_ss_ff (a @ CHR '':'' # b @ CHR '':'' # c @ fr) =
           (case parse_fraction fr of Inl e \<Rightarrow> Inl e | Inr ff \<Rightarrow> Inr (h, m, s, ff))"
  using assms by (simp add: parse_hh_mm_ss_ff_def Let_def)

lemma parse_format_time:
  assumes "dt_hour d < 24" "dt_minute d < 60" "dt_second d < 60" "dt_microsecond d < 1000000"
  shows "parse_hh_mm_ss_ff (format_time d) =
           Inr (dt_hour d, dt_minute d, dt_second d, dt_microsecond d)"
proof -
  have p: "py_int (zero_pad 2 (dt_hour d)) = Inr (dt_hour d)"
       "py_int (zero_pad 2 (dt_minute d)) = Inr (dt_minute d)"
       "py_int (zero_pad 2 (dt_second d)) = Inr (dt_second d)"
    using assms by (simp_all add: py_int_zero_pad)
  have l: "length (zero_pad 2 (dt_hour d)) = 2" "length (zero_pad 2 (dt_minute d)) = 2"
       "length (zero_pad 2 (dt_second d)) = 2"
    by (simp_all add: length_zero_pad)
  have g: "parse_hh_mm_ss_ff (zero_pad 2 (dt_hour d) @ CHR '':'' # zero_pad 2 (dt_minute d)
            @ CHR '':'' # zero_pad 2 (dt_second d) @ fr)
        = (case parse_fraction fr of Inl e \<Rightarrow> Inl e
           | Inr ff \<Rightarrow> Inr (dt_hour d, dt_minute d, dt_second d, ff))" for fr
    using l p by (rule parse_hh_mm_ss)
  show ?thesis
  proof (cases "dt_microsecond d = 0")
    case True
    then show ?thesis using g[of "[]"] by (simp add: format_time_def parse_fraction_empty)
  next
    case False
    then show ?thesis
      using g[of "CHR ''.'' # zero_pad 6 (dt_microsecond d)"] assms(4)
      by (simp add: format_time_def parse_fraction_micro)
  qed
qed

lemma format_offset_text:
  "format_offset (Some x) = (if x < 0 then CHR ''-'' else CHR ''+'') # offset_text (nat \<bar>x\<bar>)"
  by (simp add: format_offset_def offset_text_def Let_def)

lemma offset_split:
  "(a::nat) = (a div 3600000000) * 3600000000 + ((a mod 3600000000) div 60000000) * 60000000
       + ((a mod 60000000) div 1000000) * 1000000 + a mod 1000000"
proof -
  have 1: "a = (a div 3600000000) * 3600000000 + a mod 3600000000" by simp
  have 2: "a mod 3600000000 = ((a mod 3600000000) div 60000000) * 60000000 + (a mod 3600000000) mod 60000000"
    by simp
  have 3: "(a mod 3600000000) mod 60000000 = a mod 60000000"
    by (rule mod_mod_cancel) simp
  have 4: "a mod 60000000 = ((a mod 60000000) div 1000000) * 1000000 + (a mod 60000000) mod 1000000"
    by simp
  have 5: "(a mod 60000000) mod 1000000 = a mod 1000000"
    by (rule mod_mod_cancel) simp
  show ?thesis using 1 2 3 4 5 by linarith
qed

lemma offset_bounds:
  assumes "(a::nat) < 86400000000"
  shows "a div 3600000000 < 100" "(a mod 3600000000) div 60000000 < 100"
        "(a mod 60000000) div 1000000 < 100" "a mod 1000000 < 1000000"
proof -
  show "a div 3600000000 < 100" using assms by (simp add: div_less_iff_less_mult)
  have "a mod 3600000000 < 3600000000" by simp
  then show "(a mod 3600000000) div 60000000 < 100" by (simp add: div_less_iff_less_mult)
  have "a mod 60000000 < 60000000" by simp
  then show "(a mod 60000000) div 1000000 < 100" by (simp add: div_less_iff_less_mult)
  show "a mod 1000000 < 1000000" by simp
qed

lemma parse_offset_text:
  assumes "(a::nat) < 86400000000"
  shows "parse_hh_mm_ss_ff (offset_text a) =
           Inr (a div 3600000000, (a mod 3600000000) div 60000000,
                (a mod 60000000) div 1000000, a mod 1000000)
         \<and> length (offset_text a) \<in> set [5, 8, 15]"
proof -
  let ?hh = "a div 3600000000" and ?mm = "(a mod 3600000000) div 60000000"
  let ?ss = "(a mod 60000000) div 1000000" and ?us = "a mod 1000000"
  have p: "py_int (zero_pad 2 ?hh) = Inr ?hh" "py_int (zero_pad 2 ?mm) = Inr ?mm"
          "py_int (zero_pad 2 ?ss) = Inr ?ss"
    using offset_bounds[OF assms] by (simp_all add: py_int_zero_pad)
  have l: "length (zero_pad 2 ?hh) = 2" "length (zero_pad 2 ?mm) = 2" "length (zero_pad 2 ?ss) = 2"
    by (simp_all add: length_zero_pad)
  have g: "parse_hh_mm_ss_ff (zero_pad 2 ?hh @ CHR '':'' # zero_pad 2 ?mm @ CHR '':'' # zero_pad 2 ?ss @ fr)
        = (case parse_fraction fr of Inl e \<Rightarrow> Inl e | Inr ff \<Rightarrow> Inr (?hh, ?mm, ?ss, ff))" for fr
    using l p by (rule parse_hh_mm_ss)
  have h: "parse_hh_mm_ss_ff (zero_pad 2 ?hh @ CHR '':'' # zero_pad 2 ?mm) = Inr (?hh, ?mm, 0, 0)"
    using l(1,2) p(1,2) by (rule parse_hh_mm)
  show ?thesis
  proof (cases "?us = 0")
    case us0: True
    show ?thesis
    proof (cases "?ss = 0")
      case True
      then show ?thesis using us0 h by (simp add: offset_text_def length_zero_pad)
    next
      case False
      then show ?thesis using us0 g[of "[]"]
        by (simp add: offset_text_def length_zero_pad parse_fraction_empty)
    qed
  next
    case False
    then show ?thesis using g[of "CHR ''.'' # zero_pad 6 ?us"]
      by (simp add: offset_text_def length_zero_pad parse_fraction_micro)
  qed
qed

lemma no_sign_in_digits_and_punct:
  "\<forall>c \<in> set s. is_digit c \<or> c = CHR '':'' \<or> c = CHR ''.'' \<Longrightarrow>
     CHR ''-'' \<notin> set s \<and> CHR ''+'' \<notin> set s"
  using digit_not_punct by fastforce

lemma format_time_chars: "\<forall>c \<in> set (format_time d). is_digit c \<or> c = CHR '':'' \<or> c = CHR ''.''"
  using all_digits_zero_pad by (auto simp: format_time_def list_all_iff)

lemma offset_text_chars: "\<forall>c \<in> set (offset_text a). is_digit c \<or> c = CHR '':'' \<or> c = CHR ''.''"
  using all_digits_zero_pad by (auto simp: offset_text_def list_all_iff)

lemma length_format_time: "2 \<le> length (format_time d)"
  by (simp add: format_time_def length_zero_pad)

lemma tz_pos_none: "CHR ''-'' \<notin> set s \<Longrightarrow> CHR ''+'' \<notin> set s \<Longrightarrow> tz_pos s = 0"
  by (simp add: tz_pos_def find_char_absent)

lemma tz_pos_minus: "CHR ''-'' \<notin> set s \<Longrightarrow> tz_pos (s @ CHR ''-'' # t) = length s + 1"
  by (simp add: tz_pos_def find_char_first)

lemma tz_pos_plus:
  "CHR ''-'' \<notin> set s \<Longrightarrow> CHR ''+'' \<notin> set s \<Longrightarrow> CHR ''-'' \<notin> set t \<Longrightarrow>
     tz_pos (s @ CHR ''+'' # t) = length s + 1"
  by (simp add: tz_pos_def find_char_absent find_char_first)

lemma parse_isoformat_time_naive:
  assumes "dt_hour d < 24" "dt_minute d < 60" "dt_second d < 60" "dt_microsecond d < 1000000"
  shows "parse_isoformat_time (format_time d) =
           Inr ((dt_hour d, dt_minute d, dt_second d, dt_microsecond d), None)"
proof -
  have s: "CHR ''-'' \<notin> set (format_time d) \<and> CHR ''+'' \<notin> set (format_time d)"
    using format_time_chars by (rule no_sign_in_digits_and_punct)
  then have p: "tz_pos (format_time d) = 0" by (simp add: tz_pos_none)
  have "\<not> length (format_time d) < 2" using length_format_time[of d] by simp
  then show ?thesis using p parse_format_time[OF assms]
    by (simp add: parse_isoformat_time_def Let_def)
qed

lemma parse_isoformat_time_eval:
  assumes "2 \<le> length T" and "tz_pos (T @ sg # ofs) = length T + 1"
      and "parse_hh_mm_ss_ff T = Inr tc" and "parse_hh_mm_ss_ff ofs = Inr (th, tm, ts, tf)"
      and "length ofs \<in> set [5, 8, 15]"
  shows "parse_isoformat_time (T @ sg # ofs) =
           (if th = 0 \<and> tm = 0 \<and> ts = 0 \<and> tf = 0 then Inr (tc, Some 0)
            else if int (th * 3600000000 + tm * 60000000 + ts * 1000000 + tf) < microseconds_per_day
                 then Inr (tc, Some ((if sg = CHR ''-'' then - 1 else 1)
                                      * int (th * 3600000000 + tm * 60000000 + ts * 1000000 + tf)))
                 else Inl ValueError)"
proof -
  have len: "\<not> length (T @ sg # ofs) < 2" using assms(1) by auto
  have tk: "take (length T + 1 - 1) (T @ sg # ofs) = T" by simp
  have dr: "drop (length T + 1) (T @ sg # ofs) = ofs" by simp
  have nth: "(T @ sg # ofs) ! (length T + 1 - 1) = sg" by simp
  have pos: "length T + 1 > 0" by simp
  show ?thesis
    unfolding parse_isoformat_time_def Let_def assms(2)
    by (simp only: len tk dr nth pos assms(3,4,5) if_True if_False sum.case prod.case not_True_eq_False not_not)
qed

lemma parse_isoformat_time_signed:
  assumes t: "dt_hour d < 24" "dt_minute d < 60" "dt_second d < 60" "dt_microsecond d < 1000000"
      and a: "a < 86400000000"
      and sg: "sg = CHR ''-'' \<or> sg = CHR ''+''"
  shows "parse_isoformat_time (format_time d @ sg # offset_text a) =
           Inr ((dt_hour d, dt_minute d, dt_second d, dt_microsecond d),
                Some (if a = 0 then 0 else if sg = CHR ''-'' then - int a else int a))"
proof -
  let ?T = "format_time d" and ?O = "offset_text a"
  have sT: "CHR ''-'' \<notin> set ?T \<and> CHR ''+'' \<notin> set ?T"
    using format_time_chars by (rule no_sign_in_digits_and_punct)
  have sO: "CHR ''-'' \<notin> set ?O \<and> CHR ''+'' \<notin> set ?O"
    using offset_text_chars by (rule no_sign_in_digits_and_punct)
  have p: "tz_pos (?T @ sg # ?O) = length ?T + 1"
    using sg sT sO by (auto simp: tz_pos_minus tz_pos_plus)
  have po: "parse_hh_mm_ss_ff ?O =
           Inr (a div 3600000000, (a mod 3600000000) div 60000000,
                (a mod 60000000) div 1000000, a mod 1000000)"
    and lo: "length ?O \<in> set [5, 8, 15]"
    using parse_offset_text[OF a] by simp_all
  have td: "a div 3600000000 * 3600000000 + (a mod 3600000000) div 60000000 * 60000000
              + (a mod 60000000) div 1000000 * 1000000 + a mod 1000000 = a"
    using offset_split[of a] by simp
  have zero: "(a div 3600000000 = 0 \<and> (a mod 3600000000) div 60000000 = 0
              \<and> (a mod 60000000) div 1000000 = 0 \<and> a mod 1000000 = 0) \<longleftrightarrow> a = 0"
    using td by auto
  have lt: "int a < microseconds_per_day" using a by (simp add: microseconds_per_day_def)
  have "parse_isoformat_time (?T @ sg # ?O) =
      (if a = 0 then Inr ((dt_hour d, dt_minute d, dt_second d, dt_microsecond d), Some 0)
       else if int a < microseconds_per_day
            then Inr ((dt_hour d, dt_minute d, dt_second d, dt_microsecond d),
                      Some ((if sg = CHR ''-'' then - 1 else 1) * int a))
            else Inl ValueError)"
    using parse_isoformat_time_eval[OF length_format_time p parse_format_time[OF t] po lo]
    by (simp only: td zero)
  then show ?thesis using lt by simp
qed

lemma parse_isoformat_time_roundtrip:
  assumes "dt_hour d < 24" "dt_minute d < 60" "dt_second d < 60" "dt_microsecond d < 1000000"
      and "case dt_utcoffset d of None \<Rightarrow> True
           | Some x \<Rightarrow> - microseconds_per_day < x \<and> x < microseconds_per_day"
  shows "parse_isoformat_time (format_time d @ format_offset (dt_utcoffset d)) =
           Inr ((dt_hour d, dt_minute d, dt_second d, dt_microsecond d), dt_utcoffset d)"
proof (cases "dt_utcoffset d")
  case None
  then show ?thesis using parse_isoformat_time_naive[OF assms(1-4)]
    by (simp add: format_offset_def)
next
  case (Some x)
  then have "- 86400000000 < x \<and> x < 86400000000"
    using assms(5) by (simp add: microseconds_per_day_def)
  then have b: "nat \<bar>x\<bar> < 86400000000" by linarith
  have "parse_isoformat_time (format_time d @ (if x < 0 then CHR ''-'' else CHR ''+'') # offset_text (nat \<bar>x\<bar>)) =
           Inr ((dt_hour d, dt_minute d, dt_second d, dt_microsecond d),
                Some (if nat \<bar>x\<bar> = 0 then 0
                      else if (if x < 0 then CHR ''-'' else CHR ''+'') = CHR ''-''
                           then - int (nat \<bar>x\<bar>) else int (nat \<bar>x\<bar>)))"
    by (rule parse_isoformat_time_signed[OF assms(1-4) b]) simp
  then show ?thesis using Some by (auto simp: format_offset_text)
qed

lemma parse_isoformat_date_eval:
  assumes "length y = 4" "length m = 2" "length dd = 2"
      and "py_int y = Inr yv" "py_int m = Inr mv" "py_int dd = Inr dv"
  shows "parse_isoformat_date (y @ CHR ''-'' # m @ CHR ''-'' # dd) = Inr (yv, mv, dv)"
  using assms by (simp add: parse_isoformat_date_def nth_append)

lemma fromisoformat_eval:
  assumes "length y = 4" "length m = 2" "length dd = 2"
      and "py_int y = Inr yv" "py_int m = Inr mv" "py_int dd = Inr dv"
      and "rest \<noteq> []" and "parse_isoformat_time rest = Inr ((hh, mi, ss, us), tz)"
  shows "fromisoformat (y @ CHR ''-'' # m @ CHR ''-'' # dd @ sep # rest) =
           (let d = \<lparr>dt_year = yv, dt_month = mv, dt_day = dv, dt_hour = hh, dt_minute = mi,
                     dt_second = ss, dt_microsecond = us, dt_utcoffset = tz\<rparr>
            in if valid_datetime d then Inr d else Inl ValueError)"
proof -
  have tk: "take 10 (y @ CHR ''-'' # m @ CHR ''-'' # dd @ sep # rest) = y @ CHR ''-'' # m @ CHR ''-'' # dd"
    using assms(1-3) by simp
  have dr: "drop 11 (y @ CHR ''-'' # m @ CHR ''-'' # dd @ sep # rest) = rest"
    using assms(1-3) by simp
  show ?thesis
    unfolding fromisoformat_def tk dr
    using parse_isoformat_date_eval[OF assms(1-6)] assms(7,8) by simp
qed

lemma fromisoformat_isoformat:
  assumes "valid_datetime d"
  shows "fromisoformat (isoformat d) = Inr d"
proof -
  have v: "dt_year d < 10 ^ 4" "dt_month d < 10 ^ 2" "dt_day d < 10 ^ 2"
    using assms by (auto simp: valid_datetime_def days_in_month_def split: if_splits)
  have t: "dt_hour d < 24" "dt_minute d < 60" "dt_second d < 60" "dt_microsecond d < 1000000"
    using assms by (simp_all add: valid_datetime_def)
  have o: "case dt_utcoffset d of None \<Rightarrow> True
           | Some x \<Rightarrow> - microseconds_per_day < x \<and> x < microseconds_per_day"
    using assms by (simp add: valid_datetime_def)
  have pt: "parse_isoformat_time (format_time d @ format_offset (dt_utcoffset d)) =
           Inr ((dt_hour d, dt_minute d, dt_second d, dt_microsecond d), dt_utcoffset d)"
    using t o by (rule parse_isoformat_time_roundtrip)
  have pi: "py_int (zero_pad 4 (dt_year d)) = Inr (dt_year d)"
      "py_int (zero_pad 2 (dt_month d)) = Inr (dt_month d)"
      "py_int (zero_pad 2 (dt_day d)) = Inr (dt_day d)"
    using v by (simp_all only: py_int_zero_pad zero_less_numeral)
  have ne: "format_time d @ format_offset (dt_utcoffset d) \<noteq> []"
    using length_format_time[of d] by auto
  have "fromisoformat (zero_pad 4 (dt_year d) @ CHR ''-'' # zero_pad 2 (dt_month d) @ CHR ''-''
            # zero_pad 2 (dt_day d) @ CHR ''T'' # (format_time d @ format_offset (dt_utcoffset d))) =
           (let d' = \<lparr>dt_year = dt_year d, dt_month = dt_month d, dt_day = dt_day d,
                     dt_hour = dt_hour d, dt_minute = dt_minute d,
                     dt_second = dt_second d, dt_microsecond = dt_microsecond d,
                     dt_utcoffset = dt_utcoffset d\<rparr>
            in if valid_datetime d' then Inr d' else Inl ValueError)"
    by (rule fromisoformat_eval)
       (simp_all only: length_zero_pad pi ne pt not_False_eq_True)
  moreover have "\<lparr>dt_year = dt_year d, dt_month = dt_month d, dt_day = dt_day d,
                     dt_hour = dt_hour d, dt_minute = dt_minute d,
                     dt_second = dt_second d, dt_microsecond = dt_microsecond d,
                     dt_utcoffset = dt_utcoffset d\<rparr> = d"
    by simp
  ultimately show ?thesis using assms by (simp add: isoformat_def)
qed

lemma str_member_to_dict:
  "str_member (to_dict n) ''droplet_id'' = Inr (droplet_id n)"
  "str_member (to_dict n) ''name'' = Inr (name n)"
  "str_member (to_dict n) ''public_ip'' = Inr (public_ip n)"
  "str_member (to_dict n) ''tailscale_ip'' = Inr (tailscale_ip n)"
  "str_member (to_dict n) ''region'' = Inr (region n)"
  "str_member (to_dict n) ''status'' = Inr (status n)"
  "str_member (to_dict n) ''created_at'' = Inr (isoformat (created_at n))"
  "str_member (to_dict n) ''last_checked'' = Inr (isoformat (last_checked n))"
  by (simp_all add: str_member_def subscript_def to_dict_def)

lemma from_dict_to_dict:
  assumes "valid_datetime (created_at n)" "valid_datetime (last_checked n)"
  shows "from_dict (to_dict n) = Inr n"
  unfolding from_dict_def str_member_to_dict
  by (simp add: bind_exc_def fromisoformat_isoformat[OF assms(1)] fromisoformat_isoformat[OF assms(2)])

lemma from_dict_all_to_dict:
  "\<forall>n \<in> set nodes. valid_datetime (created_at n) \<and> valid_datetime (last_checked n) \<Longrightarrow>
     from_dict_all (map to_dict nodes) = Inr nodes"
  by (induction nodes) (simp_all add: from_dict_to_dict)

lemma load_saved_document:
  "\<forall>n \<in> set nodes. valid_datetime (created_at n) \<and> valid_datetime (last_checked n) \<Longrightarrow>
     load_exit_nodes (saved_document nodes) = nodes"
  by (simp add: load_exit_nodes_def saved_document_def parse_exit_nodes_def iterate_def
        from_dict_all_to_dict)

lemma valid_ex_time: "valid_datetime ex_time" "valid_datetime ex_later"
  by (simp_all add: valid_datetime_def ex_time_def ex_later_def days_in_month_def is_leap_def
        microseconds_per_day_def)

lemma zero_pad_2: "zero_pad 2 n = [digit_char (n div 10 mod 10), digit_char (n mod 10)]"
proof -
  have "zero_pad (Suc (Suc 0)) n = [digit_char (n div 10 mod 10), digit_char (n mod 10)]"
    by simp
  then show ?thesis by (simp only: numeral_2_eq_2)
qed

lemma zero_pad_4:
  "zero_pad 4 n = [digit_char (n div 1000 mod 10), digit_char (n div 100 mod 10),
                   digit_char (n div 10 mod 10), digit_char (n mod 10)]"
proof -
  have "zero_pad (Suc (Suc (Suc (Suc 0)))) n =
          [digit_char (n div 1000 mod 10), digit_char (n div 100 mod 10),
           digit_char (n div 10 mod 10), digit_char (n mod 10)]"
    by (simp add: div_mult2_eq[symmetric])
  moreover have "(4::nat) = Suc (Suc (Suc (Suc 0)))" by simp
  ultimately show ?thesis by (simp only:)
qed

lemma zero_pad_6:
  "zero_pad 6 n = [digit_char (n div 100000 mod 10), digit_char (n div 10000 mod 10),
                   digit_char (n div 1000 mod 10), digit_char (n div 100 mod 10),
                   digit_char (n div 10 mod 10), digit_char (n mod 10)]"
proof -
  have "zero_pad (Suc (Suc (Suc (Suc (Suc (Suc 0)))))) n =
          [digit_char (n div 100000 mod 10), digit_char (n div 10000 mod 10),
           digit_char (n div 1000 mod 10), digit_char (n div 100 mod 10),
           digit_char (n div 10 mod 10), digit_char (n mod 10)]"
    by (simp add: div_mult2_eq[symmetric])
  moreover have "(6::nat) = Suc (Suc (Suc (Suc (Suc (Suc 0)))))" by simp
  ultimately show ?thesis by (simp only:)
qed

lemma digit_char_of_char: "d < 10 \<Longrightarrow> (of_char c :: nat) = 48 + d \<Longrightarrow> digit_char d = c"
proof -
  assume "d < 10" and "(of_char c :: nat) = 48 + d"
  then have "(of_char (digit_char d) :: nat) = of_char c" by (simp add: of_char_digit_char)
  then show ?thesis by (rule of_char_eqI)
qed

lemma digit_chars:
  "digit_char 0 = CHR ''0''" "digit_char 1 = CHR ''1''" "digit_char 2 = CHR ''2''"
  "digit_char 3 = CHR ''3''" "digit_char 4 = CHR ''4''" "digit_char 5 = CHR ''5''"
  "digit_char 6 = CHR ''6''" "digit_char 7 = CHR ''7''" "digit_char 8 = CHR ''8''"
  "digit_char 9 = CHR ''9''" "digit_char (Suc 0) = CHR ''1''"
  by (rule digit_char_of_char, simp, simp)+

lemma isoformat_ex_time: "isoformat ex_time = ''2024-05-17T08:30:15.123456+00:00''"
  by (simp add: isoformat_def format_time_def format_offset_def ex_time_def
        zero_pad_2 zero_pad_4 zero_pad_6 digit_chars)

section \<open>Claims\<close>



text \<open>
  Claim C2. In every cycle the number of provisioning attempts submitted to the pool is
  \<open>needed = max(0, target - healthy)\<close> when \<open>tracked + needed \<le> max\<close>, and
  \<open>max(0, max - tracked)\<close> otherwise, both counts taken on the tracked list that the
  cleanup leaves; with \<open>needed = 5\<close> and \<open>max - tracked = 2\<close> exactly 2 attempts start.
\<close>

theorem provisioning_attempts_started:
  "length (filter is_submit (fst (run_cycle w m))) =
     nat (if int (length (exit_nodes (after_cleanup w m)))
               + max 0 (target_nodes (config m) - current_healthy_count (after_cleanup w m))
             \<le> max_nodes (config m)
          then max 0 (target_nodes (config m) - current_healthy_count (after_cleanup w m))
          else max 0 (max_nodes (config m) - int (length (exit_nodes (after_cleanup w m)))))
   \<and> (max 0 (target_nodes (config m) - current_healthy_count (after_cleanup w m)) = 5
        \<and> max_nodes (config m) - int (length (exit_nodes (after_cleanup w m))) = 2
      \<longrightarrow> length (filter is_submit (fst (run_cycle w m))) = 2)"
proof -
  have cfg: "config (after_cleanup w m) = config m" by (simp add: after_cleanup_eq)
  have "length (filter is_submit (fst (run_cycle w m))) =
          length (filter is_submit (fst (provision_shortfall w (after_cleanup w m))))"
    by (simp add: run_cycle_after_cleanup check_existing_nodes_no_submit cleanup_failed_nodes_no_submit)
  then have eq: "length (filter is_submit (fst (run_cycle w m))) =
     nat (if int (length (exit_nodes (after_cleanup w m)))
               + max 0 (target_nodes (config m) - current_healthy_count (after_cleanup w m))
             \<le> max_nodes (config m)
          then max 0 (target_nodes (config m) - current_healthy_count (after_cleanup w m))
          else max 0 (max_nodes (config m) - int (length (exit_nodes (after_cleanup w m)))))"
    using provision_shortfall_submits[of w "after_cleanup w m"]
    by (simp add: needed_def max_can_create_def cfg)
  then show ?thesis by auto
qed

text \<open>
  Scenario D on a concrete fleet: one healthy tracked node, target 6, maximum 3.
\<close>

theorem provisioning_attempts_started_witness:
  "max 0 (target_nodes (config scenario_d_manager)
            - current_healthy_count (after_cleanup scenario_d_world scenario_d_manager)) = 5
   \<and> max_nodes (config scenario_d_manager)
        - int (length (exit_nodes (after_cleanup scenario_d_world scenario_d_manager))) = 2
   \<and> length (filter is_submit (fst (run_cycle scenario_d_world scenario_d_manager))) = 2"
proof -
  have h1: "max 0 (target_nodes (config scenario_d_manager)
            - current_healthy_count (after_cleanup scenario_d_world scenario_d_manager)) = 5"
    by (simp add: current_healthy_count_def scenario_d_after_cleanup) (simp add: scenario_d_manager_def)
  have h2: "max_nodes (config scenario_d_manager)
        - int (length (exit_nodes (after_cleanup scenario_d_world scenario_d_manager))) = 2"
    by (simp add: scenario_d_after_cleanup) (simp add: scenario_d_manager_def)
  show ?thesis
    using provisioning_attempts_started[of scenario_d_world scenario_d_manager] h1 h2 by blast
qed




text \<open>
  Claim C4. For every configuration whose target node count exceeds its max node count,
  or whose provider token or join secret is empty, building the configuration raises
  \<^verbatim>\<open>ConfigurationError\<close>, and \<^verbatim>\<open>main\<close> ends in the configuration-error exit with
  an empty trace: nothing that could call the provider has started.
\<close>

theorem startup_rejects_invalid_configuration:
  assumes "target_nodes c > max_nodes c \<or> do_token c = [] \<or> ts_authkey c = []"
  shows "post_init c = Inl ConfigurationError
       \<and> main c start = ([], ConfigurationFailure)
       \<and> filter is_provider_call (fst (main c start)) = []"
  using assms by (auto simp: post_init_def main_def main_handlers_def)

text \<open>Target 5 above maximum 3, with a start routine that calls the provider at once.\<close>

theorem startup_rejects_invalid_configuration_witness:
  "target_nodes (ex_config 5 3) > max_nodes (ex_config 5 3)
   \<and> main (ex_config 5 3) eager_start = ([], ConfigurationFailure)
   \<and> fst (main (ex_config 3 3) eager_start) = [GetAllDroplets]"
proof -
  have h: "target_nodes (ex_config 5 3) > max_nodes (ex_config 5 3)
             \<or> do_token (ex_config 5 3) = [] \<or> ts_authkey (ex_config 5 3) = []"
    by simp
  have "fst (main (ex_config 3 3) eager_start) = [GetAllDroplets]"
    by (simp add: main_def post_init_def eager_start_def ex_config_def)
  then show ?thesis
    using startup_rejects_invalid_configuration[OF h, of eager_start] by simp
qed

text \<open>
  Claim C5. For every tracked instance whose status is \<^verbatim>\<open>unhealthy\<close> or
  \<^verbatim>\<open>error\<close> when cleanup runs, cleanup attempts the provider-side destroy (it fetches
  the droplet, and destroys it when the fetch answered), and whatever the provider
  answers, also when the destroy raises, the instance is removed: cleanup completes and
  the tracked list it leaves is the old one without the instances of those two statuses.
\<close>

theorem cleanup_removes_failed_nodes:
  assumes "n \<in> set (exit_nodes m)"
      and "status n = ''unhealthy'' \<or> status n = ''error''"
  shows "GetDroplet (droplet_id n) \<in> set (fst (cleanup_failed_nodes w m))
       \<and> (\<forall>d. provider_get_droplet w (droplet_id n) = Inr d
              \<longrightarrow> Destroy (d_id d) \<in> set (fst (cleanup_failed_nodes w m)))
       \<and> (\<exists>m'. snd (cleanup_failed_nodes w m) = Inr m'
              \<and> n \<notin> set (exit_nodes m')
              \<and> (\<forall>k \<in> set (exit_nodes m'). status k \<noteq> ''unhealthy'' \<and> status k \<noteq> ''error'')
              \<and> exit_nodes m' = filter (\<lambda>k. status k \<noteq> ''unhealthy'' \<and> status k \<noteq> ''error'') (exit_nodes m))"
proof -
  have f: "is_failed n" using assms(2) by (auto simp: is_failed_def)
  have sub: "set (destroy_node w n) \<subseteq> set (fst (cleanup_failed_nodes w m))"
    using cleanup_loop_trace_mem[OF assms(1) f] by (simp add: fst_cleanup_failed_nodes)
  have a: "GetDroplet (droplet_id n) \<in> set (fst (cleanup_failed_nodes w m))"
    using sub destroy_node_lookup by blast
  have b: "\<forall>d. provider_get_droplet w (droplet_id n) = Inr d
              \<longrightarrow> Destroy (d_id d) \<in> set (fst (cleanup_failed_nodes w m))"
    using sub destroy_node_destroy by blast
  have e: "(\<lambda>k. \<not> is_failed k) = (\<lambda>k. status k \<noteq> ''unhealthy'' \<and> status k \<noteq> ''error'')"
    by (auto simp: is_failed_def)
  have c: "snd (cleanup_failed_nodes w m) =
             Inr (m\<lparr>exit_nodes := filter (\<lambda>k. status k \<noteq> ''unhealthy'' \<and> status k \<noteq> ''error'') (exit_nodes m)\<rparr>)"
    using cleanup_failed_nodes_result[of w m] by (simp add: e)
  show ?thesis using a b c assms(2) by auto
qed

text \<open>An unhealthy node whose destroy call raises, beside a healthy one.\<close>

theorem cleanup_removes_failed_nodes_witness:
  "ex_node ''101'' ''unhealthy'' \<in> set (exit_nodes mixed_manager)
   \<and> status (ex_node ''101'' ''unhealthy'') = ''unhealthy''
   \<and> provider_destroy failing_destroy_world (ex_droplet ''101'' ''active'') = Some RequestException
   \<and> Destroy ''101'' \<in> set (fst (cleanup_failed_nodes failing_destroy_world mixed_manager))
   \<and> snd (cleanup_failed_nodes failing_destroy_world mixed_manager)
       = Inr (mixed_manager\<lparr>exit_nodes := [ex_node ''102'' ''healthy'']\<rparr>)"
proof -
  have h1: "ex_node ''101'' ''unhealthy'' \<in> set (exit_nodes mixed_manager)"
    by (simp add: mixed_manager_def)
  have h2: "status (ex_node ''101'' ''unhealthy'') = ''unhealthy'' \<or> status (ex_node ''101'' ''unhealthy'') = ''error''"
    by simp
  have h3: "provider_get_droplet failing_destroy_world (droplet_id (ex_node ''101'' ''unhealthy''))
              = Inr (ex_droplet ''101'' ''active'')"
    by (simp add: failing_destroy_world_def ex_world_def)
  have h4: "provider_destroy failing_destroy_world (ex_droplet ''101'' ''active'') = Some RequestException"
    by (simp add: failing_destroy_world_def ex_world_def)
  have h5: "exit_nodes mixed_manager = [ex_node ''101'' ''unhealthy'', ex_node ''102'' ''healthy'']"
    by (simp add: mixed_manager_def)
  from cleanup_removes_failed_nodes[OF h1 h2, of failing_destroy_world]
  obtain m' where r: "Destroy (d_id (ex_droplet ''101'' ''active''))
        \<in> set (fst (cleanup_failed_nodes failing_destroy_world mixed_manager))"
      "snd (cleanup_failed_nodes failing_destroy_world mixed_manager) = Inr m'"
      "exit_nodes m' = filter (\<lambda>k. status k \<noteq> ''unhealthy'' \<and> status k \<noteq> ''error'') (exit_nodes mixed_manager)"
    using h3 by blast
  have "m' = mixed_manager\<lparr>exit_nodes := [ex_node ''102'' ''healthy'']\<rparr>"
    using r(2) cleanup_failed_nodes_result[of failing_destroy_world mixed_manager]
    by (simp add: h5 is_failed_def)
  then show ?thesis using h1 h4 r by simp
qed




text \<open>
  Claim C7. Saving a fleet snapshot and loading it back gives the same list of
  instances, every field equal, the timestamps to the microsecond and with their offset
  from UTC (a Python \<^verbatim>\<open>datetime\<close> always satisfies the range checks of
  \<open>valid_datetime\<close>); this holds for the file that \<^verbatim>\<open>_save_exit_nodes\<close> writes in
  a cycle. A missing state file and one that is not JSON load as the empty fleet, and
  so does every document whose conversion raises: loading returns a list in all cases.
\<close>

theorem state_file_round_trip:
  "((\<forall>n \<in> set nodes. valid_datetime (created_at n) \<and> valid_datetime (last_checked n))
      \<longrightarrow> load_exit_nodes (saved_document nodes) = nodes)
   \<and> ((\<forall>n \<in> set (exit_nodes m). valid_datetime (created_at n) \<and> valid_datetime (last_checked n))
        \<and> write_fails w = None
      \<longrightarrow> load_exit_nodes (exit_nodes_file (snd (save_exit_nodes w m))) = exit_nodes m)
   \<and> load_exit_nodes FileMissing = []
   \<and> load_exit_nodes FileNotJson = []
   \<and> (\<forall>e. parse_exit_nodes f = Inl e \<longrightarrow> load_exit_nodes f = [])"
proof (intro conjI impI allI)
  assume "\<forall>n \<in> set nodes. valid_datetime (created_at n) \<and> valid_datetime (last_checked n)"
  then show "load_exit_nodes (saved_document nodes) = nodes" by (rule load_saved_document)
next
  assume a: "(\<forall>n \<in> set (exit_nodes m). valid_datetime (created_at n) \<and> valid_datetime (last_checked n))
        \<and> write_fails w = None"
  then have "load_exit_nodes (saved_document (exit_nodes m)) = exit_nodes m"
    using load_saved_document by blast
  then show "load_exit_nodes (exit_nodes_file (snd (save_exit_nodes w m))) = exit_nodes m"
    using a by (simp add: save_exit_nodes_def)
next
  show "load_exit_nodes FileMissing = []" by (simp add: load_exit_nodes_def)
next
  show "load_exit_nodes FileNotJson = []" by (simp add: load_exit_nodes_def parse_exit_nodes_def)
next
  fix e assume "parse_exit_nodes f = Inl e"
  then show "load_exit_nodes f = []" by (simp add: load_exit_nodes_def)
qed

text \<open>
  A snapshot of two instances with different timestamps, its first timestamp as text,
  and a document whose timestamp is not ISO-8601.
\<close>

theorem state_file_round_trip_witness:
  "load_exit_nodes (saved_document [ex_node ''101'' ''healthy'',
        (ex_node ''102'' ''unhealthy'')\<lparr>last_checked := ex_later\<rparr>])
     = [ex_node ''101'' ''healthy'', (ex_node ''102'' ''unhealthy'')\<lparr>last_checked := ex_later\<rparr>]
   \<and> isoformat (created_at (ex_node ''101'' ''healthy'')) = ''2024-05-17T08:30:15.123456+00:00''
   \<and> parse_exit_nodes (FileJson (JArray [JObject [(''droplet_id'', JString ''101'')]])) = Inl KeyError
   \<and> load_exit_nodes (FileJson (JArray [JObject [(''droplet_id'', JString ''101'')]])) = []"
proof -
  let ?nodes = "[ex_node ''101'' ''healthy'', (ex_node ''102'' ''unhealthy'')\<lparr>last_checked := ex_later\<rparr>]"
  let ?f = "FileJson (JArray [JObject [(''droplet_id'', JString ''101'')]])"
  have v: "\<forall>n \<in> set ?nodes. valid_datetime (created_at n) \<and> valid_datetime (last_checked n)"
    by (simp add: ex_node_def valid_ex_time)
  have k: "parse_exit_nodes ?f = Inl KeyError"
    by (simp add: parse_exit_nodes_def iterate_def from_dict_def bind_exc_def str_member_def
          subscript_def)
  have r1: "load_exit_nodes (saved_document ?nodes) = ?nodes"
    using state_file_round_trip[of ?nodes] v by blast
  have r2: "load_exit_nodes ?f = []"
    using state_file_round_trip[of _ _ _ ?f] k by blast
  show ?thesis using r1 r2 k by (simp add: ex_node_def isoformat_ex_time)
qed

text \<open>
  Claim C8 on the code. A tracked node whose droplet is listed with a status other than
  \<^verbatim>\<open>active\<close> is evaluated by the health check and marked \<^verbatim>\<open>unhealthy\<close>, but
  its \<open>last_checked\<close> keeps the old reading instead of the clock reading of the
  evaluation: the branch has no assignment to it, unlike both branches for an active
  droplet.
\<close>

theorem stale_last_checked_when_not_active:
  "snd (check_existing_nodes stopped_world one_node_manager)
     = Inr (one_node_manager\<lparr>do_client := \<lparr>droplets_cache = Some [ex_droplet ''101'' ''off''],
                                            cache_time = Some 1000\<rparr>,
                             exit_nodes := [(ex_node ''101'' ''healthy'')\<lparr>status := ''unhealthy''\<rparr>]\<rparr>, [])
   \<and> last_checked ((ex_node ''101'' ''healthy'')\<lparr>status := ''unhealthy''\<rparr>) = ex_time
   \<and> utc_now stopped_world 0 = ex_later
   \<and> ex_time \<noteq> ex_later"
  by (simp add: check_existing_nodes_def get_droplets_def cache_expired_def stopped_world_def
        one_node_manager_def droplets_by_id_def check_node_def list_remove_def)
     (simp add: ex_node_def ex_time_def ex_later_def)




text \<open>
  Claim C10. When the fetch of the provider listing fails while the cache is absent or
  empty, \<open>get_droplets\<close> returns the empty list without raising; the health check
  then finds no tracked instance in the listing and removes every one of them from
  tracking, its trace holds no destroy call, and the cleanup that follows has nothing
  left to destroy.
\<close>

theorem failed_listing_untracks_all:
  assumes "get_all_droplets w = Inl e"
      and "droplets_cache (do_client m) = None \<or> droplets_cache (do_client m) = Some []"
  shows "snd (snd (get_droplets w (do_client m) False)) = []
       \<and> (\<exists>healthy. snd (check_existing_nodes w m) = Inr (m\<lparr>exit_nodes := []\<rparr>, healthy))
       \<and> (\<forall>ev \<in> set (fst (check_existing_nodes w m)). \<not> is_destroy ev)
       \<and> fst (cleanup_failed_nodes w (m\<lparr>exit_nodes := []\<rparr>)) = []
       \<and> exit_nodes (after_cleanup w m) = []"
proof -
  have g: "snd (get_droplets w (do_client m) False) = (do_client m, [])"
    using assms by (rule get_droplets_failed_fetch)
  then have inv: "inventory_of w m = Map.empty"
    by (simp add: inventory_of_def droplets_by_id_empty)
  then have s: "surviving w m = []" by (rule surviving_empty_inventory)
  obtain h where "snd (check_existing_nodes w m) =
     Inr (m\<lparr>do_client := fst (snd (get_droplets w (do_client m) False)), exit_nodes := surviving w m\<rparr>, h)"
    using check_existing_nodes_result by blast
  then have c: "snd (check_existing_nodes w m) = Inr (m\<lparr>exit_nodes := []\<rparr>, h)"
    using g s by simp
  have d: "\<forall>ev \<in> set (fst (check_existing_nodes w m)). \<not> is_destroy ev"
    using check_existing_nodes_events[of _ w m] by fastforce
  have "exit_nodes (after_cleanup w m) = []" by (simp add: after_cleanup_eq s)
  then show ?thesis using g c d by (simp add: fst_cleanup_failed_nodes)
qed

text \<open>A provider outage met with an empty cache and two healthy tracked nodes.\<close>

theorem failed_listing_untracks_all_witness:
  "get_all_droplets outage_world = Inl RequestException
   \<and> droplets_cache (do_client two_node_manager) = None
   \<and> length (exit_nodes two_node_manager) = 2
   \<and> exit_nodes (after_cleanup outage_world two_node_manager) = []
   \<and> filter is_destroy (fst (check_existing_nodes outage_world two_node_manager)) = []"
proof -
  have h1: "get_all_droplets outage_world = Inl RequestException"
    by (simp add: outage_world_def)
  have h2: "droplets_cache (do_client two_node_manager) = None"
    by (simp add: two_node_manager_def)
  have h3: "length (exit_nodes two_node_manager) = 2"
    by (simp add: two_node_manager_def)
  show ?thesis
    using failed_listing_untracks_all[of outage_world RequestException two_node_manager] h1 h2 h3
    by (simp add: filter_empty_conv)
qed

end
